theory Spec2Isabelle
  imports Complex_Main
begin

section \<open>Push subscriptions (push-manager)\<close>

text \<open>
  The push manager keeps its subscriptions in one JSON file and its VAPID keys in another,
  with a module-level cache of the keys. The model carries the three as one record;
  every exported function takes the record and returns the updated one.
\<close>

record push_keys =
  p256dh :: string
  auth :: string

record PushSubscriptionData =
  endpoint :: string
  keys :: push_keys

record VapidKeys =
  publicKey :: string
  privateKey :: string

text \<open>The content of \<open>vapid-keys.json\<close>: absent, not parseable, or a pair of keys.\<close>

datatype vapid_file = NoKeysFile | CorruptKeysFile | KeysFile VapidKeys

text \<open>
  \<open>subs_file\<close> is the content of \<open>push-subscriptions.json\<close>: \<open>None\<close> when the file
  does not exist or does not parse, which \<open>loadSubscriptions\<close> both read as the empty list.
\<close>

record push_state =
  vapidKeys :: "VapidKeys option"
  vapid_file :: vapid_file
  subs_file :: "PushSubscriptionData list option"

text \<open>
  What the call can throw before any notification is sent: \<open>JSON.parse\<close> on a keys file
  that does not parse, and \<open>webpush.setVapidDetails\<close> on a subject or a pair of keys it
  does not accept.
\<close>

datatype push_error = SyntaxError | VapidError

definition loadVapidKeys :: "VapidKeys \<Rightarrow> push_state \<Rightarrow> push_error + (VapidKeys \<times> push_state)" where
  "loadVapidKeys generated st =
     (case vapidKeys st of
        Some k \<Rightarrow> Inr (k, st)
      | None \<Rightarrow>
         (case vapid_file st of
            KeysFile k \<Rightarrow> Inr (k, st\<lparr>vapidKeys := Some k\<rparr>)
          | CorruptKeysFile \<Rightarrow> Inl SyntaxError
          | NoKeysFile \<Rightarrow>
              Inr (generated, st\<lparr>vapidKeys := Some generated, vapid_file := KeysFile generated\<rparr>)))"

definition loadSubscriptions :: "push_state \<Rightarrow> PushSubscriptionData list" where
  "loadSubscriptions st = (case subs_file st of None \<Rightarrow> [] | Some subs \<Rightarrow> subs)"

definition saveSubscriptions :: "PushSubscriptionData list \<Rightarrow> push_state \<Rightarrow> push_state" where
  "saveSubscriptions subs st = st\<lparr>subs_file := Some subs\<rparr>"

text \<open>\<open>Array.prototype.findIndex\<close>: the first index whose element satisfies the test;
  \<open>None\<close> stands for the result \<open>-1\<close>.\<close>

fun findIndex :: "('a \<Rightarrow> bool) \<Rightarrow> 'a list \<Rightarrow> nat option" where
  "findIndex P [] = None"
| "findIndex P (x # xs) =
     (if P x then Some 0 else (case findIndex P xs of None \<Rightarrow> None | Some i \<Rightarrow> Some (Suc i)))"

definition addSubscription :: "PushSubscriptionData \<Rightarrow> push_state \<Rightarrow> push_state" where
  "addSubscription sub st =
     (let subs = loadSubscriptions st in
      case findIndex (\<lambda>s. endpoint s = endpoint sub) subs of
        Some existing \<Rightarrow> saveSubscriptions (subs[existing := sub]) st
      | None \<Rightarrow> saveSubscriptions (subs @ [sub]) st)"

definition removeSubscription :: "string \<Rightarrow> push_state \<Rightarrow> bool \<times> push_state" where
  "removeSubscription ep st =
     (let subs = loadSubscriptions st;
          filtered = filter (\<lambda>s. endpoint s \<noteq> ep) subs
      in if length filtered = length subs then (False, st)
         else (True, saveSubscriptions filtered st))"

definition getAllSubscriptions :: "push_state \<Rightarrow> PushSubscriptionData list" where
  "getAllSubscriptions st = loadSubscriptions st"

text \<open>
  What \<open>webpush.sendNotification\<close> settles to for one subscription: fulfilled, or rejected
  with a value whose \<open>statusCode\<close> is a number, with a value without one, or with
  \<open>null\<close>/\<open>undefined\<close> (reading \<open>statusCode\<close> then throws inside the \<open>catch\<close> block).
\<close>

datatype rejection = StatusCode int | NoStatusCode | Nullish

datatype send_result = Fulfilled | Rejected rejection

text \<open>
  The body of the closure mapped over the subscriptions: the endpoints it pushes to
  \<open>expired\<close>, and whether its own promise ends fulfilled (\<open>True\<close>) or rejected.
  \<open>Promise.allSettled\<close> waits for all of them and discards both outcomes.
\<close>

definition notify :: "(PushSubscriptionData \<Rightarrow> send_result) \<Rightarrow> PushSubscriptionData \<Rightarrow> string list \<times> bool" where
  "notify sendNotification sub =
     (case sendNotification sub of
        Fulfilled \<Rightarrow> ([], True)
      | Rejected Nullish \<Rightarrow> ([], False)
      | Rejected NoStatusCode \<Rightarrow> ([], True)
      | Rejected (StatusCode c) \<Rightarrow> (if c = 410 \<or> c = 404 then ([endpoint sub], True) else ([], True)))"

text \<open>
  \<open>generated\<close> is what \<open>webpush.generateVAPIDKeys\<close> returns, \<open>setVapidDetails\<close> tells
  whether \<open>webpush.setVapidDetails\<close> returns (it validates its arguments and throws
  otherwise), \<open>sendNotification\<close> is the push service. The call is outside any \<open>try\<close>:
  where it throws, the promise of \<open>sendPushToAll\<close> rejects, \<open>Inl\<close> of the error and the
  state left behind, before any notification is sent.
\<close>

definition sendPushToAll ::
  "VapidKeys \<Rightarrow> (string \<Rightarrow> string \<Rightarrow> string \<Rightarrow> bool) \<Rightarrow> (PushSubscriptionData \<Rightarrow> send_result)
     \<Rightarrow> push_state \<Rightarrow> (push_error \<times> push_state) + push_state" where
  "sendPushToAll generated setVapidDetails sendNotification st =
     (let subs = loadSubscriptions st in
      if length subs = 0 then Inr st
      else
        (case loadVapidKeys generated st of
           Inl e \<Rightarrow> Inl (e, st)
         | Inr (k, st1) \<Rightarrow>
             if \<not> setVapidDetails ''mailto:companion@localhost'' (publicKey k) (privateKey k)
             then Inl (VapidError, st1)
             else
             (let expired = concat (map (\<lambda>sub. fst (notify sendNotification sub)) subs) in
              if length expired > 0
              then Inr (saveSubscriptions
                          (filter (\<lambda>s. endpoint s \<notin> set expired) (loadSubscriptions st1)) st1)
              else Inr st1)))"

section \<open>Browser client: the store and the frame handler (ws.ts)\<close>

subsection \<open>Data\<close>

text \<open>JSON values, for the session metadata the handler stores without reading it.\<close>

datatype json = JNull | JBool bool | JNum rat | JStr string | JArr "json list" | JObj "(string \<times> json) list"

text \<open>
  \<open>SessionState\<close>: the session id and, by name, every other field of the object.
  \<open>PartialSession\<close> is a partial \<open>SessionState\<close>: the keys an update carries.
\<close>

record SessionState =
  session_id :: string
  meta :: "string \<rightharpoonup> json"

record PartialSession =
  upd_session_id :: "string option"
  upd_meta :: "string \<rightharpoonup> json"

text \<open>
  The input of a tool invocation, an untyped record in the source, as the
  fields the handler reads, each with the type of the cast the source reads it through;
  \<open>None\<close> is a key that is absent (for \<open>todos\<close>: not an array).
\<close>

record Todo =
  todo_content :: "string option"
  todo_status :: "string option"
  todo_activeForm :: "string option"

record ToolInput =
  todos :: "Todo list option"
  in_subject :: "string option"
  in_description :: "string option"
  in_activeForm :: "string option"
  in_taskId :: "string option"
  in_status :: "string option"
  in_owner :: "string option"
  in_addBlockedBy :: "string list option"

text \<open>A content block; \<open>ToolUse id name input\<close> has each of the three optional, as the
  source reads them.\<close>

datatype ContentBlock =
    TextBlock string
  | ThinkingBlock string
  | ToolUse "string option" "string option" "ToolInput option"
  | OtherBlock

datatype role = User | Assistant | System

record ChatMessage =
  msg_id :: "string option"
  msg_role :: role
  content :: string
  contentBlocks :: "ContentBlock list option"
  timestamp :: nat
  parentToolUseId :: "string option"
  model :: "string option"
  stopReason :: "string option"

record TaskItem =
  task_id :: string
  subject :: string
  description :: string
  activeForm :: "string option"
  status :: string
  owner :: "string option"
  blockedBy :: "string list option"

record TaskUpdates =
  set_status :: "string option"
  set_owner :: "string option"
  set_activeForm :: "string option"
  set_blockedBy :: "string list option"

record PermissionRequest =
  request_id :: string
  tool_name :: string
  perm_input :: "ToolInput option"
  perm_timestamp :: nat
  tool_use_id :: "string option"

datatype run_status = Idle | Running | Compacting

text \<open>The zustand store, as the maps the frame handler reads or writes, keyed by session id.\<close>

record app_state =
  sessions :: "string \<rightharpoonup> SessionState"
  messages :: "string \<rightharpoonup> ChatMessage list"
  streaming :: "string \<rightharpoonup> string"
  streamingStartedAt :: "string \<rightharpoonup> nat"
  streamingOutputTokens :: "string \<rightharpoonup> int"
  pendingPermissions :: "string \<rightharpoonup> (string \<rightharpoonup> PermissionRequest)"
  cliConnected :: "string \<rightharpoonup> bool"
  sessionStatus :: "string \<rightharpoonup> run_status option"
  sessionTasks :: "string \<rightharpoonup> TaskItem list"
  sessionNames :: "string \<rightharpoonup> string"

text \<open>The module-level variables of ws.ts, together with the store.\<close>

record ws_module =
  store :: app_state
  taskCounters :: "string \<rightharpoonup> nat"
  processedToolUseIds :: "string \<rightharpoonup> string set"
  idCounter :: nat

subsection \<open>Store actions\<close>

text \<open>JavaScript truthiness of an optional string: present and not empty.\<close>

definition truthy :: "string option \<Rightarrow> bool" where
  "truthy v = (case v of None \<Rightarrow> False | Some s \<Rightarrow> s \<noteq> [])"

text \<open>
  Modelled from the spec: store.ts is not among the sources; only its tests are.
  \<open>appendMessage\<close> follows "deduplicated by message id when present (messages without an
  id are never deduplicated)" and, from the tests, keeps the first of two messages with one
  id and creates the list of a session that has none.
\<close>

definition appendMessage :: "string \<Rightarrow> ChatMessage \<Rightarrow> app_state \<Rightarrow> app_state" where
  "appendMessage sessionId msg s =
     (let existing = (case messages s sessionId of None \<Rightarrow> [] | Some ms \<Rightarrow> ms) in
      if truthy (msg_id msg) \<and> (\<exists>m \<in> set existing. msg_id m = msg_id msg) then s
      else s\<lparr>messages := (messages s)(sessionId \<mapsto> existing @ [msg])\<rparr>)"

text \<open>Modelled from the spec: "replaces all messages for a session" (store tests).\<close>

definition setMessages :: "string \<Rightarrow> ChatMessage list \<Rightarrow> app_state \<Rightarrow> app_state" where
  "setMessages sessionId msgs s = s\<lparr>messages := (messages s)(sessionId \<mapsto> msgs)\<rparr>"

text \<open>Modelled from the spec: "adds to sessions map and initializes empty messages",
  "does not overwrite existing messages" (store tests).\<close>

definition addSession :: "SessionState \<Rightarrow> app_state \<Rightarrow> app_state" where
  "addSession session s =
     s\<lparr>sessions := (sessions s)(session_id session \<mapsto> session),
       messages := (case messages s (session_id session) of
                      None \<Rightarrow> (messages s)(session_id session \<mapsto> [])
                    | Some _ \<Rightarrow> messages s)\<rparr>"

text \<open>Modelled from the spec: "merge partial session metadata"; "no-op for unknown
  session" (store tests).\<close>

definition updateSession :: "string \<Rightarrow> PartialSession \<Rightarrow> app_state \<Rightarrow> app_state" where
  "updateSession sessionId updates s =
     (case sessions s sessionId of
        None \<Rightarrow> s
      | Some existing \<Rightarrow>
          s\<lparr>sessions := (sessions s)(sessionId \<mapsto>
              \<lparr>session_id = (case upd_session_id updates of None \<Rightarrow> session_id existing | Some i \<Rightarrow> i),
               meta = meta existing ++ upd_meta updates\<rparr>)\<rparr>)"

text \<open>Modelled from the spec: "sets text for a session", "setStreaming(null): deletes
  entry" (store tests).\<close>

definition setStreaming :: "string \<Rightarrow> string option \<Rightarrow> app_state \<Rightarrow> app_state" where
  "setStreaming sessionId text s =
     (case text of
        None \<Rightarrow> s\<lparr>streaming := (streaming s)(sessionId := None)\<rparr>
      | Some t \<Rightarrow> s\<lparr>streaming := (streaming s)(sessionId \<mapsto> t)\<rparr>)"

text \<open>Modelled from the spec: "sets only provided fields", "setStreamingStats(null):
  clears both fields" (store tests). The argument is \<open>None\<close> for \<open>null\<close>, else the pair of
  the optional \<open>startedAt\<close> and \<open>outputTokens\<close>.\<close>

definition setStreamingStats :: "string \<Rightarrow> (nat option \<times> int option) option \<Rightarrow> app_state \<Rightarrow> app_state" where
  "setStreamingStats sessionId stats s =
     (case stats of
        None \<Rightarrow> s\<lparr>streamingStartedAt := (streamingStartedAt s)(sessionId := None),
                  streamingOutputTokens := (streamingOutputTokens s)(sessionId := None)\<rparr>
      | Some (startedAt, outputTokens) \<Rightarrow>
          s\<lparr>streamingStartedAt :=
               (case startedAt of None \<Rightarrow> streamingStartedAt s
                | Some t \<Rightarrow> (streamingStartedAt s)(sessionId \<mapsto> t)),
            streamingOutputTokens :=
               (case outputTokens of None \<Rightarrow> streamingOutputTokens s
                | Some n \<Rightarrow> (streamingOutputTokens s)(sessionId \<mapsto> n))\<rparr>)"

text \<open>Modelled from the spec: "insert into the pending-request map", keyed by the
  request id ("adds to nested map", store tests).\<close>

definition addPermission :: "string \<Rightarrow> PermissionRequest \<Rightarrow> app_state \<Rightarrow> app_state" where
  "addPermission sessionId perm s =
     (let sessionPerms = (case pendingPermissions s sessionId of None \<Rightarrow> Map.empty | Some m \<Rightarrow> m) in
      s\<lparr>pendingPermissions := (pendingPermissions s)(sessionId \<mapsto> sessionPerms(request_id perm \<mapsto> perm))\<rparr>)"

text \<open>Modelled from the spec: "remove from pending-request map"; "removes specific
  request" (store tests). A session without a map of requests stays as it is.\<close>

definition removePermission :: "string \<Rightarrow> string \<Rightarrow> app_state \<Rightarrow> app_state" where
  "removePermission sessionId requestId s =
     (case pendingPermissions s sessionId of
        None \<Rightarrow> s
      | Some sessionPerms \<Rightarrow>
          s\<lparr>pendingPermissions := (pendingPermissions s)(sessionId \<mapsto> sessionPerms(requestId := None))\<rparr>)"

text \<open>Modelled from the spec: the connectivity and run-state setters.\<close>

definition setCliConnected :: "string \<Rightarrow> bool \<Rightarrow> app_state \<Rightarrow> app_state" where
  "setCliConnected sessionId v s = s\<lparr>cliConnected := (cliConnected s)(sessionId \<mapsto> v)\<rparr>"

definition setSessionStatus :: "string \<Rightarrow> run_status option \<Rightarrow> app_state \<Rightarrow> app_state" where
  "setSessionStatus sessionId st s = s\<lparr>sessionStatus := (sessionStatus s)(sessionId \<mapsto> st)\<rparr>"

definition setSessionName :: "string \<Rightarrow> string \<Rightarrow> app_state \<Rightarrow> app_state" where
  "setSessionName sessionId name s = s\<lparr>sessionNames := (sessionNames s)(sessionId \<mapsto> name)\<rparr>"

text \<open>Modelled from the spec: the task list "supports full replacement and incremental
  add/update" ("appends task to session list", "replaces all tasks", "merges updates into
  matching task without affecting others", store tests).\<close>

definition addTask :: "string \<Rightarrow> TaskItem \<Rightarrow> app_state \<Rightarrow> app_state" where
  "addTask sessionId task s =
     (let tasks = (case sessionTasks s sessionId of None \<Rightarrow> [] | Some ts \<Rightarrow> ts) in
      s\<lparr>sessionTasks := (sessionTasks s)(sessionId \<mapsto> tasks @ [task])\<rparr>)"

definition setTasks :: "string \<Rightarrow> TaskItem list \<Rightarrow> app_state \<Rightarrow> app_state" where
  "setTasks sessionId tasks s = s\<lparr>sessionTasks := (sessionTasks s)(sessionId \<mapsto> tasks)\<rparr>"

definition applyUpdates :: "TaskUpdates \<Rightarrow> TaskItem \<Rightarrow> TaskItem" where
  "applyUpdates u t =
     t\<lparr>status := (case set_status u of None \<Rightarrow> status t | Some v \<Rightarrow> v),
       owner := (case set_owner u of None \<Rightarrow> owner t | Some v \<Rightarrow> Some v),
       activeForm := (case set_activeForm u of None \<Rightarrow> activeForm t | Some v \<Rightarrow> Some v),
       blockedBy := (case set_blockedBy u of None \<Rightarrow> blockedBy t | Some v \<Rightarrow> Some v)\<rparr>"

definition updateTask :: "string \<Rightarrow> string \<Rightarrow> TaskUpdates \<Rightarrow> app_state \<Rightarrow> app_state" where
  "updateTask sessionId taskId updates s =
     (case sessionTasks s sessionId of
        None \<Rightarrow> s
      | Some tasks \<Rightarrow>
          s\<lparr>sessionTasks := (sessionTasks s)(sessionId \<mapsto>
               map (\<lambda>t. if task_id t = taskId then applyUpdates updates t else t) tasks)\<rparr>)"

subsection \<open>Task derivation (extractTasksFromBlocks)\<close>

text \<open>\<open>String(n)\<close> for a natural number: its decimal digits.\<close>

fun string_of_nat :: "nat \<Rightarrow> string" where
  "string_of_nat n =
     (if n < 10 then [char_of (48 + n)]
      else string_of_nat (n div 10) @ [char_of (48 + n mod 10)])"

declare string_of_nat.simps [simp del]

text \<open>The set of processed tool-use ids of a session; \<open>getProcessedSet\<close> creates the empty
  set of a session that has none.\<close>

definition processed :: "ws_module \<Rightarrow> string \<Rightarrow> string set" where
  "processed w sessionId = (case processedToolUseIds w sessionId of None \<Rightarrow> {} | Some ids \<Rightarrow> ids)"

definition getProcessedSet :: "string \<Rightarrow> ws_module \<Rightarrow> ws_module" where
  "getProcessedSet sessionId w =
     (case processedToolUseIds w sessionId of
        None \<Rightarrow> w\<lparr>processedToolUseIds := (processedToolUseIds w)(sessionId \<mapsto> {})\<rparr>
      | Some _ \<Rightarrow> w)"

definition todoTasks :: "Todo list \<Rightarrow> TaskItem list" where
  "todoTasks ts =
     map (\<lambda>(i, t).
           \<lparr>task_id = string_of_nat (i + 1),
            subject = (if truthy (todo_content t) then the (todo_content t) else ''Task''),
            description = [],
            activeForm = todo_activeForm t,
            status = (if truthy (todo_status t) then the (todo_status t) else ''pending''),
            owner = None,
            blockedBy = None\<rparr>)
         (enumerate 0 ts)"

text \<open>The three branches of the loop body, one per task-management tool; \<open>w\<close> is the
  state once the tool-use id is recorded.\<close>

definition todoWrite :: "string \<Rightarrow> ToolInput \<Rightarrow> ws_module \<Rightarrow> ws_module" where
  "todoWrite sessionId input w =
     (case todos input of
        Some ts \<Rightarrow>
          w\<lparr>store := setTasks sessionId (todoTasks ts) (store w),
            taskCounters := (taskCounters w)(sessionId \<mapsto> length (todoTasks ts))\<rparr>
      | None \<Rightarrow> w)"

definition taskCreate :: "string \<Rightarrow> ToolInput \<Rightarrow> ws_module \<Rightarrow> ws_module" where
  "taskCreate sessionId input w =
     (let count = (case taskCounters w sessionId of None \<Rightarrow> 0 | Some c \<Rightarrow> c) + 1;
          task = \<lparr>task_id = string_of_nat count,
                  subject = (if truthy (in_subject input) then the (in_subject input) else ''Task''),
                  description = (if truthy (in_description input) then the (in_description input) else []),
                  activeForm = in_activeForm input,
                  status = ''pending'',
                  owner = None,
                  blockedBy = None\<rparr>
      in w\<lparr>store := addTask sessionId task (store w),
            taskCounters := (taskCounters w)(sessionId \<mapsto> count)\<rparr>)"

definition taskUpdate :: "string \<Rightarrow> ToolInput \<Rightarrow> ws_module \<Rightarrow> ws_module" where
  "taskUpdate sessionId input w =
     (if truthy (in_taskId input) then
        (let updates = \<lparr>set_status = (if truthy (in_status input) then in_status input else None),
                        set_owner = (if truthy (in_owner input) then in_owner input else None),
                        set_activeForm = in_activeForm input,
                        set_blockedBy = in_addBlockedBy input\<rparr>
         in w\<lparr>store := updateTask sessionId (the (in_taskId input)) updates (store w)\<rparr>)
      else w)"

text \<open>\<open>processed.add(toolUseId)\<close>.\<close>

definition markProcessed :: "string \<Rightarrow> string \<Rightarrow> ws_module \<Rightarrow> ws_module" where
  "markProcessed sessionId toolUseId w =
     w\<lparr>processedToolUseIds :=
         (processedToolUseIds w)(sessionId \<mapsto> insert toolUseId (processed w sessionId))\<rparr>"

text \<open>One iteration of the loop over the blocks; every \<open>continue\<close> returns the state
  reached so far.\<close>

definition extractBlock :: "string \<Rightarrow> ContentBlock \<Rightarrow> ws_module \<Rightarrow> ws_module" where
  "extractBlock sessionId block w =
     (case block of
        ToolUse toolUseId name inp \<Rightarrow>
          if \<not> truthy name \<or> inp = None then w
          else if truthy toolUseId \<and> the toolUseId \<in> processed w sessionId then w
          else
            (let input = the inp;
                 w1 = (if truthy toolUseId then markProcessed sessionId (the toolUseId) w else w)
             in
             if name = Some ''TodoWrite'' then todoWrite sessionId input w1
             else if name = Some ''TaskCreate'' then taskCreate sessionId input w1
             else if name = Some ''TaskUpdate'' then taskUpdate sessionId input w1
             else w1)
      | _ \<Rightarrow> w)"

definition extractTasksFromBlocks :: "string \<Rightarrow> ContentBlock list \<Rightarrow> ws_module \<Rightarrow> ws_module" where
  "extractTasksFromBlocks sessionId blocks w =
     foldl (\<lambda>w' block. extractBlock sessionId block w') (getProcessedSet sessionId w) blocks"

subsection \<open>The frame handler (handleMessage)\<close>

text \<open>\<open>nextId\<close>: the identifier built from the clock and the incremented counter.\<close>

definition nextId :: "nat \<Rightarrow> ws_module \<Rightarrow> string \<times> ws_module" where
  "nextId now w =
     (''msg-'' @ string_of_nat now @ ''-'' @ string_of_nat (idCounter w + 1),
      w\<lparr>idCounter := idCounter w + 1\<rparr>)"

text \<open>\<open>Array.prototype.join\<close> with a separator.\<close>

fun join :: "string \<Rightarrow> string list \<Rightarrow> string" where
  "join sep [] = []"
| "join sep [x] = x"
| "join sep (x # y # ys) = x @ sep @ join sep (y # ys)"

definition extractTextFromBlocks :: "ContentBlock list \<Rightarrow> string" where
  "extractTextFromBlocks blocks =
     join [CHR 0x0A]
       (filter (\<lambda>s. s \<noteq> [])
          (map (\<lambda>b. case b of TextBlock t \<Rightarrow> t | ThinkingBlock t \<Rightarrow> t | _ \<Rightarrow> []) blocks))"

record AssistantPayload =
  a_id :: "string option"
  a_content :: "ContentBlock list"
  a_model :: "string option"
  a_stop_reason :: "string option"

record ModelUsage =
  inputTokens :: int
  outputTokens :: int
  contextWindow :: int

record ResultData =
  total_cost_usd :: rat
  num_turns :: int
  total_lines_added :: "int option"
  total_lines_removed :: "int option"
  modelUsage :: "ModelUsage list option"
  is_error :: bool
  errors :: "string list option"

text \<open>A stream event: \<open>None\<close> below when \<open>data.event\<close> is not an object. \<open>delta_text\<close> is
  present when \<open>delta.text\<close> is a string; \<open>usage_output_tokens\<close> is
  \<open>usage?.output_tokens\<close>.\<close>

record Delta =
  delta_type :: "string option"
  delta_text :: "string option"

record StreamEvt =
  evt_type :: "string option"
  delta :: "Delta option"
  usage_output_tokens :: "int option"

datatype HistoryMessage =
    HistUser string nat
  | HistAssistant AssistantPayload "string option"
  | HistResult ResultData
  | HistOther

text \<open>The parsed frame, by its \<open>type\<close>; \<open>UnknownFrame\<close> is any \<open>type\<close> the switch has no
  case for.\<close>

datatype BrowserIncomingMessage =
    SessionInit SessionState
  | SessionUpdate PartialSession
  | AssistantFrame AssistantPayload "string option"
  | StreamEventFrame "StreamEvt option"
  | ResultFrame ResultData
  | PermissionRequestFrame PermissionRequest
  | PermissionCancelled string
  | ToolProgress
  | ToolUseSummary
  | StatusChange "run_status option"
  | AuthStatus "string option"
  | ErrorFrame string
  | CliDisconnected
  | CliConnected
  | MessageHistory "HistoryMessage list"
  | UnknownFrame

text \<open>
  What the handler takes from outside the module: \<open>JSON.parse\<close> on the frame's text
  (\<open>None\<close> when it throws), the clock \<open>Date.now()\<close> at the time of the call, the
  name generator of \<open>utils/names\<close>, and the floating-point arithmetic of the context
  percentage (see \<open>contextPercent\<close> below).
\<close>

record env =
  JSON_parse :: "string \<Rightarrow> BrowserIncomingMessage option"
  Date_now :: nat
  generateUniqueSessionName :: "string set \<Rightarrow> string"
  roundPercent :: "int \<Rightarrow> int \<Rightarrow> int"

definition assistantChatMessage :: "nat \<Rightarrow> AssistantPayload \<Rightarrow> string option \<Rightarrow> ChatMessage" where
  "assistantChatMessage now msg parent =
     \<lparr>msg_id = a_id msg,
      msg_role = Assistant,
      content = extractTextFromBlocks (a_content msg),
      contentBlocks = Some (a_content msg),
      timestamp = now,
      parentToolUseId = parent,
      model = a_model msg,
      stopReason = a_stop_reason msg\<rparr>"

definition systemMessage :: "string \<Rightarrow> nat \<Rightarrow> string \<Rightarrow> ChatMessage" where
  "systemMessage i now text =
     \<lparr>msg_id = Some i, msg_role = System, content = text, contentBlocks = None,
      timestamp = now, parentToolUseId = None, model = None, stopReason = None\<rparr>"

text \<open>
  The share of the context window in use. The source computes
  \<open>Math.round(((inputTokens + outputTokens) / contextWindow) * 100)\<close> on IEEE doubles;
  the quotient, the product and the rounding are the environment's \<open>roundPercent\<close>, given
  the sum of the tokens and the window.
\<close>

definition contextPercent :: "env \<Rightarrow> ModelUsage \<Rightarrow> int" where
  "contextPercent e u = roundPercent e (inputTokens u + outputTokens u) (contextWindow u)"

definition resultUpdates :: "env \<Rightarrow> ResultData \<Rightarrow> PartialSession" where
  "resultUpdates e r =
     (let m0 = [''total_cost_usd'' \<mapsto> JNum (total_cost_usd r), ''num_turns'' \<mapsto> JNum (of_int (num_turns r))];
          m1 = (case total_lines_added r of None \<Rightarrow> m0
                | Some n \<Rightarrow> m0(''total_lines_added'' \<mapsto> JNum (of_int n)));
          m2 = (case total_lines_removed r of None \<Rightarrow> m1
                | Some n \<Rightarrow> m1(''total_lines_removed'' \<mapsto> JNum (of_int n)));
          m3 = (case modelUsage r of None \<Rightarrow> m2
                | Some us \<Rightarrow>
                    foldl (\<lambda>m u. if contextWindow u > 0
                                  then m(''context_used_percent'' \<mapsto> JNum (of_int (contextPercent e u)))
                                  else m) m2 us)
      in \<lparr>upd_session_id = None, upd_meta = m3\<rparr>)"

definition errorText :: "string list \<Rightarrow> string" where
  "errorText es = ''Error: '' @ join '', '' es"

text \<open>The loop of the \<open>message_history\<close> case over the history: the chat messages
  collected so far and the module state.\<close>

fun historyLoop :: "nat \<Rightarrow> string \<Rightarrow> HistoryMessage list \<Rightarrow> ChatMessage list \<times> ws_module \<Rightarrow> ChatMessage list \<times> ws_module" where
  "historyLoop now sessionId [] acc = acc"
| "historyLoop now sessionId (h # hs) (chatMessages, w) =
     historyLoop now sessionId hs
       (case h of
          HistUser text ts \<Rightarrow>
            (let (i, w1) = nextId now w in
             (chatMessages @ [\<lparr>msg_id = Some i, msg_role = User, content = text, contentBlocks = None,
                               timestamp = ts, parentToolUseId = None, model = None, stopReason = None\<rparr>], w1))
        | HistAssistant msg parent \<Rightarrow>
            (chatMessages @ [assistantChatMessage now msg parent],
             if length (a_content msg) \<noteq> 0 then extractTasksFromBlocks sessionId (a_content msg) w else w)
        | HistResult r \<Rightarrow>
            (if is_error r \<and> (case errors r of None \<Rightarrow> False | Some es \<Rightarrow> length es \<noteq> 0)
             then (let (i, w1) = nextId now w in
                   (chatMessages @ [systemMessage i now (errorText (the (errors r)))], w1))
             else (chatMessages, w))
        | HistOther \<Rightarrow> (chatMessages, w))"

text \<open>
  The handler. \<open>w0\<close> is the state at entry: the source takes one snapshot \<open>store\<close> of the
  store there, and what it reads from \<open>store.streaming\<close>, \<open>store.streamingStartedAt\<close> and
  \<open>store.sessionNames\<close> later is read from that snapshot, while the store's actions work
  on the current state.
\<close>

definition handleMessage :: "env \<Rightarrow> string \<Rightarrow> string \<Rightarrow> ws_module \<Rightarrow> ws_module" where
  "handleMessage e sessionId event_data w0 =
     (case JSON_parse e event_data of
        None \<Rightarrow> w0
      | Some frame \<Rightarrow>
         (let now = Date_now e; snapshot = store w0 in
          case frame of
            SessionInit session \<Rightarrow>
              (let s1 = setSessionStatus sessionId (Some Idle)
                          (setCliConnected sessionId True (addSession session (store w0)));
                   s2 = (if sessionNames snapshot sessionId = None
                         then setSessionName sessionId
                                (generateUniqueSessionName e (ran (sessionNames snapshot))) s1
                         else s1)
               in w0\<lparr>store := s2\<rparr>)
          | SessionUpdate session \<Rightarrow> w0\<lparr>store := updateSession sessionId session (store w0)\<rparr>
          | AssistantFrame msg parent \<Rightarrow>
              (let s1 = setSessionStatus sessionId (Some Running)
                          (setStreaming sessionId None
                             (appendMessage sessionId (assistantChatMessage now msg parent) (store w0)));
                   s2 = (if streamingStartedAt snapshot sessionId = None
                         then setStreamingStats sessionId (Some (Some now, None)) s1
                         else s1);
                   w1 = w0\<lparr>store := s2\<rparr>
               in if length (a_content msg) \<noteq> 0
                  then extractTasksFromBlocks sessionId (a_content msg) w1
                  else w1)
          | StreamEventFrame event \<Rightarrow>
              (case event of
                 None \<Rightarrow> w0
               | Some evt \<Rightarrow>
                   (let s1 = (if evt_type evt = Some ''message_start''
                                 \<and> streamingStartedAt snapshot sessionId = None
                              then setStreamingStats sessionId (Some (Some now, Some 0)) (store w0)
                              else store w0);
                        s2 = (if evt_type evt = Some ''content_block_delta''
                              then (case delta evt of
                                      None \<Rightarrow> s1
                                    | Some d \<Rightarrow>
                                        if delta_type d = Some ''text_delta'' \<and> delta_text d \<noteq> None
                                        then (let current = (if truthy (streaming snapshot sessionId)
                                                             then the (streaming snapshot sessionId) else [])
                                              in setStreaming sessionId (Some (current @ the (delta_text d))) s1)
                                        else s1)
                              else s1);
                        s3 = (if evt_type evt = Some ''message_delta''
                              then (case usage_output_tokens evt of
                                      None \<Rightarrow> s2
                                    | Some n \<Rightarrow>
                                        if n \<noteq> 0 then setStreamingStats sessionId (Some (None, Some n)) s2
                                        else s2)
                              else s2)
                    in w0\<lparr>store := s3\<rparr>))
          | ResultFrame r \<Rightarrow>
              (let s1 = setSessionStatus sessionId (Some Idle)
                          (setStreamingStats sessionId None
                             (setStreaming sessionId None
                                (updateSession sessionId (resultUpdates e r) (store w0))))
               in if is_error r \<and> (case errors r of None \<Rightarrow> False | Some es \<Rightarrow> length es \<noteq> 0)
                  then (let (i, w1) = nextId now (w0\<lparr>store := s1\<rparr>) in
                        w1\<lparr>store := appendMessage sessionId
                                       (systemMessage i now (errorText (the (errors r)))) (store w1)\<rparr>)
                  else w0\<lparr>store := s1\<rparr>)
          | PermissionRequestFrame req \<Rightarrow>
              (let w1 = w0\<lparr>store := addPermission sessionId req (store w0)\<rparr> in
               if tool_name req \<noteq> [] \<and> perm_input req \<noteq> None
               then extractTasksFromBlocks sessionId
                      [ToolUse (tool_use_id req) (Some (tool_name req)) (perm_input req)] w1
               else w1)
          | PermissionCancelled requestId \<Rightarrow>
              w0\<lparr>store := removePermission sessionId requestId (store w0)\<rparr>
          | ToolProgress \<Rightarrow> w0
          | ToolUseSummary \<Rightarrow> w0
          | StatusChange st \<Rightarrow>
              (if st = Some Compacting
               then w0\<lparr>store := setSessionStatus sessionId (Some Compacting) (store w0)\<rparr>
               else w0\<lparr>store := setSessionStatus sessionId st (store w0)\<rparr>)
          | AuthStatus err \<Rightarrow>
              (if truthy err
               then (let (i, w1) = nextId now w0 in
                     w1\<lparr>store := appendMessage sessionId
                                    (systemMessage i now (''Auth error: '' @ the err)) (store w1)\<rparr>)
               else w0)
          | ErrorFrame text \<Rightarrow>
              (let (i, w1) = nextId now w0 in
               w1\<lparr>store := appendMessage sessionId (systemMessage i now text) (store w1)\<rparr>)
          | CliDisconnected \<Rightarrow>
              w0\<lparr>store := setSessionStatus sessionId None (setCliConnected sessionId False (store w0))\<rparr>
          | CliConnected \<Rightarrow> w0\<lparr>store := setCliConnected sessionId True (store w0)\<rparr>
          | MessageHistory msgs \<Rightarrow>
              (let (chatMessages, w1) = historyLoop now sessionId msgs ([], w0) in
               if length chatMessages > 0
               then w1\<lparr>store := setMessages sessionId chatMessages (store w1)\<rparr>
               else w1)
          | UnknownFrame \<Rightarrow> w0))"

text \<open>
  \<open>disconnectSession\<close>, called when the user selects another session, starts a new one
  or deletes one. The sockets and the reconnect timers are not part of the model; what the
  function does to the state modelled here is to delete the session's set of processed
  tool-use ids and its task counter. It does not touch the store: the session's task list
  stays.
\<close>

definition disconnectSession :: "string \<Rightarrow> ws_module \<Rightarrow> ws_module" where
  "disconnectSession sessionId w =
     w\<lparr>processedToolUseIds := (processedToolUseIds w)(sessionId := None),
       taskCounters := (taskCounters w)(sessionId := None)\<rparr>"

text \<open>The frames of one session's socket, each with the environment it is handled in,
  handled in order.\<close>

fun handleAll :: "string \<Rightarrow> (env \<times> string) list \<Rightarrow> ws_module \<Rightarrow> ws_module" where
  "handleAll sessionId [] w = w"
| "handleAll sessionId (f # fs) w = handleAll sessionId fs (handleMessage (fst f) sessionId (snd f) w)"

subsection \<open>Sample subscriptions\<close>

definition sub1 :: PushSubscriptionData where
  "sub1 = \<lparr>endpoint = ''https://push.example.com/sub1'', keys = \<lparr>p256dh = ''key1-p256dh'', auth = ''key1-auth''\<rparr>\<rparr>"

definition sub1_updated :: PushSubscriptionData where
  "sub1_updated = \<lparr>endpoint = ''https://push.example.com/sub1'', keys = \<lparr>p256dh = ''updated'', auth = ''updated''\<rparr>\<rparr>"

definition sub2 :: PushSubscriptionData where
  "sub2 = \<lparr>endpoint = ''https://push.example.com/sub2'', keys = \<lparr>p256dh = ''key2-p256dh'', auth = ''key2-auth''\<rparr>\<rparr>"

definition stored :: "PushSubscriptionData list \<Rightarrow> push_state" where
  "stored subs = \<lparr>vapidKeys = None, vapid_file = NoKeysFile, subs_file = Some subs\<rparr>"

definition testKeys :: VapidKeys where
  "testKeys = \<lparr>publicKey = ''BTestPublicKey'', privateKey = ''TestPrivateKey''\<rparr>"

text \<open>A push service that answers 410 for the second subscription and 500 for any other.\<close>

definition goneOrBusy :: "PushSubscriptionData \<Rightarrow> send_result" where
  "goneOrBusy s = (if endpoint s = ''https://push.example.com/sub2''
                   then Rejected (StatusCode 410) else Rejected (StatusCode 500))"

text \<open>A \<open>setVapidDetails\<close> that accepts every pair of keys, and one that accepts none.\<close>

definition acceptKeys :: "string \<Rightarrow> string \<Rightarrow> string \<Rightarrow> bool" where
  "acceptKeys contact pub priv = True"

definition refuseKeys :: "string \<Rightarrow> string \<Rightarrow> string \<Rightarrow> bool" where
  "refuseKeys contact pub priv = False"

subsection \<open>Views of the state, and sample frames\<close>

definition tasksOf :: "ws_module \<Rightarrow> string \<Rightarrow> TaskItem list" where
  "tasksOf w sessionId = (case sessionTasks (store w) sessionId of None \<Rightarrow> [] | Some ts \<Rightarrow> ts)"

definition messagesOf :: "ws_module \<Rightarrow> string \<Rightarrow> ChatMessage list" where
  "messagesOf w sessionId = (case messages (store w) sessionId of None \<Rightarrow> [] | Some ms \<Rightarrow> ms)"


text \<open>A store action that neither reads nor writes the task lists.\<close>

definition beside_tasks :: "(app_state \<Rightarrow> app_state) \<Rightarrow> bool" where
  "beside_tasks g \<longleftrightarrow> (\<forall>s f. g (s\<lparr>sessionTasks := f\<rparr>) = (g s)\<lparr>sessionTasks := f\<rparr>)"

definition onStore :: "(app_state \<Rightarrow> app_state) \<Rightarrow> ws_module \<Rightarrow> ws_module" where
  "onStore g w = w\<lparr>store := g (store w)\<rparr>"

definition dup_id :: "string \<Rightarrow> ChatMessage \<Rightarrow> app_state \<Rightarrow> bool" where
  "dup_id sid m s \<longleftrightarrow> truthy (msg_id m) \<and>
     (\<exists>x \<in> set (case messages s sid of None \<Rightarrow> [] | Some ms \<Rightarrow> ms). msg_id x = msg_id m)"

text \<open>The store without the streaming scratch state of any session.\<close>

definition clearScratch :: "app_state \<Rightarrow> app_state" where
  "clearScratch s = s\<lparr>streaming := Map.empty, streamingStartedAt := Map.empty,
     streamingOutputTokens := Map.empty\<rparr>"

definition withoutScratch :: "ws_module \<Rightarrow> ws_module" where
  "withoutScratch w = onStore clearScratch w"

definition isStreamEvent :: "BrowserIncomingMessage option \<Rightarrow> bool" where
  "isStreamEvent f = (case f of Some (StreamEventFrame ev) \<Rightarrow> True | _ \<Rightarrow> False)"

text \<open>The state once the loop over the blocks has fetched the session's set of processed
  ids and recorded a tool-use id that is present and not empty.\<close>

definition recorded :: "string \<Rightarrow> string option \<Rightarrow> ws_module \<Rightarrow> ws_module" where
  "recorded sid tid w =
     (if truthy tid then markProcessed sid (the tid) (getProcessedSet sid w) else getProcessedSet sid w)"

text \<open>What the \<open>assistant\<close> case does to the store before it derives tasks.\<close>

definition assistantStore :: "env \<Rightarrow> string \<Rightarrow> AssistantPayload \<Rightarrow> string option \<Rightarrow> app_state \<Rightarrow> app_state \<Rightarrow> app_state" where
  "assistantStore e sid m p snapshot s =
     (if streamingStartedAt snapshot sid = None
      then setStreamingStats sid (Some (Some (Date_now e), None))
             (setSessionStatus sid (Some Running)
                (setStreaming sid None (appendMessage sid (assistantChatMessage (Date_now e) m p) s)))
      else setSessionStatus sid (Some Running)
             (setStreaming sid None (appendMessage sid (assistantChatMessage (Date_now e) m p) s)))"

definition storedMessages :: "app_state \<Rightarrow> string \<Rightarrow> ChatMessage list" where
  "storedMessages s sessionId = (case messages s sessionId of None \<Rightarrow> [] | Some ms \<Rightarrow> ms)"

definition emptyStore :: app_state where
  "emptyStore = \<lparr>sessions = Map.empty, messages = Map.empty, streaming = Map.empty,
     streamingStartedAt = Map.empty, streamingOutputTokens = Map.empty,
     pendingPermissions = Map.empty, cliConnected = Map.empty, sessionStatus = Map.empty,
     sessionTasks = Map.empty, sessionNames = Map.empty\<rparr>"

definition emptyWs :: ws_module where
  "emptyWs = \<lparr>store = emptyStore, taskCounters = Map.empty, processedToolUseIds = Map.empty, idCounter = 0\<rparr>"

definition noInput :: ToolInput where
  "noInput = \<lparr>todos = None, in_subject = None, in_description = None, in_activeForm = None,
     in_taskId = None, in_status = None, in_owner = None, in_addBlockedBy = None\<rparr>"

definition helloPayload :: AssistantPayload where
  "helloPayload = \<lparr>a_id = Some ''m1'', a_content = [TextBlock ''hello''], a_model = None, a_stop_reason = None\<rparr>"

definition createPayload :: "string \<Rightarrow> AssistantPayload" where
  "createPayload i = \<lparr>a_id = Some i,
     a_content = [ToolUse (Some ''toolu_1'') (Some ''TaskCreate'') (Some (noInput\<lparr>in_subject := Some ''Fix bug''\<rparr>))],
     a_model = None, a_stop_reason = None\<rparr>"

definition okResult :: ResultData where
  "okResult = \<lparr>total_cost_usd = 0, num_turns = 1, total_lines_added = None, total_lines_removed = None,
     modelUsage = None, is_error = False, errors = None\<rparr>"

definition bashRequest :: PermissionRequest where
  "bashRequest = \<lparr>request_id = ''r1'', tool_name = ''Bash'', perm_input = Some noInput,
     perm_timestamp = 1, tool_use_id = Some ''toolu_9''\<rparr>"

definition taskRequest :: PermissionRequest where
  "taskRequest = \<lparr>request_id = ''r3'', tool_name = ''TaskCreate'',
     perm_input = Some (noInput\<lparr>in_subject := Some ''Fix bug''\<rparr>),
     perm_timestamp = 3, tool_use_id = Some ''toolu_11''\<rparr>"

definition fixBugTask :: TaskItem where
  "fixBugTask = \<lparr>task_id = ''1'', subject = ''Fix bug'', description = [], activeForm = None,
     status = ''pending'', owner = None, blockedBy = None\<rparr>"

definition textDelta :: StreamEvt where
  "textDelta = \<lparr>evt_type = Some ''content_block_delta'',
     delta = Some \<lparr>delta_type = Some ''text_delta'', delta_text = Some ''par''\<rparr>,
     usage_output_tokens = None\<rparr>"

definition editRequest :: PermissionRequest where
  "editRequest = \<lparr>request_id = ''r2'', tool_name = ''Edit'', perm_input = Some noInput,
     perm_timestamp = 2, tool_use_id = Some ''toolu_10''\<rparr>"

text \<open>A parser for the handful of frame texts the examples use; every other text, such
  as \<open>{not json\<close>, does not parse.\<close>

definition sampleParse :: "string \<Rightarrow> BrowserIncomingMessage option" where
  "sampleParse line =
     (if line = ''assistant m1'' then Some (AssistantFrame helloPayload None)
      else if line = ''assistant m2 creates a task'' then Some (AssistantFrame (createPayload ''m2'') None)
      else if line = ''assistant m3 creates a task'' then Some (AssistantFrame (createPayload ''m3'') None)
      else if line = ''result'' then Some (ResultFrame okResult)
      else if line = ''stream delta'' then Some (StreamEventFrame (Some textDelta))
      else if line = ''permission r1'' then Some (PermissionRequestFrame bashRequest)
      else if line = ''permission r2'' then Some (PermissionRequestFrame editRequest)
      else if line = ''cancel r1'' then Some (PermissionCancelled ''r1'')
      else if line = ''permission r3'' then Some (PermissionRequestFrame taskRequest)
      else if line = ''history m2'' then Some (MessageHistory [HistAssistant (createPayload ''m2'') None])
      else None)"

definition sampleEnv :: env where
  "sampleEnv = \<lparr>JSON_parse = sampleParse, Date_now = 1000, generateUniqueSessionName = (\<lambda>names. ''Session''),
                  roundPercent = (\<lambda>tokens window. 0)\<rparr>"

text \<open>A session in mid-stream: partial text, a start time and a token count.\<close>

definition streamingWs :: ws_module where
  "streamingWs = emptyWs\<lparr>store := emptyStore\<lparr>streaming := [''s1'' \<mapsto> ''partial''],
     streamingStartedAt := [''s1'' \<mapsto> 5], streamingOutputTokens := [''s1'' \<mapsto> 42]\<rparr>\<rparr>"

definition userMessage :: "string option \<Rightarrow> string \<Rightarrow> ChatMessage" where
  "userMessage i text = \<lparr>msg_id = i, msg_role = User, content = text, contentBlocks = None,
     timestamp = 0, parentToolUseId = None, model = None, stopReason = None\<rparr>"

section \<open>Server: auto-relaunch and the reconnection watchdog (index.ts)\<close>

subsection \<open>The launcher's table\<close>

datatype proc_state = Starting | Connected | ProcRunning | Exited

record SdkSessionInfo =
  sessionId :: string
  state :: proc_state
  archived :: bool

text \<open>
  Modelled from the spec: cli-launcher.ts is not among the sources. The launcher's table
  is the list of its records in insertion order; \<open>getSession\<close> and
  \<open>getStartingSessions\<close> are the "read-only introspection used by the Recovery
  Coordinator", and \<open>markConnected\<close> records that the agent of a session has connected.
\<close>

definition getSession :: "SdkSessionInfo list \<Rightarrow> string \<Rightarrow> SdkSessionInfo option" where
  "getSession l sid = find (\<lambda>i. sessionId i = sid) l"

definition getStartingSessions :: "SdkSessionInfo list \<Rightarrow> SdkSessionInfo list" where
  "getStartingSessions l = filter (\<lambda>i. state i = Starting) l"

definition setState :: "string \<Rightarrow> proc_state \<Rightarrow> SdkSessionInfo list \<Rightarrow> SdkSessionInfo list" where
  "setState sid st l = map (\<lambda>i. if sessionId i = sid then i\<lparr>state := st\<rparr> else i) l"

definition markConnected :: "string \<Rightarrow> SdkSessionInfo list \<Rightarrow> SdkSessionInfo list" where
  "markConnected sid l = setState sid Connected l"

text \<open>\<open>info.archived\<close> for the record of a session id, read in the table: the watchdog's
  loop holds references to the launcher's records, the model their ids.\<close>

definition archivedOf :: "SdkSessionInfo list \<Rightarrow> string \<Rightarrow> bool" where
  "archivedOf l sid = (case getSession l sid of None \<Rightarrow> False | Some info \<Rightarrow> archived info)"

subsection \<open>The server's state and its two recovery paths\<close>

text \<open>
  Which of the two paths calls \<open>launcher.relaunch\<close> (each logs its own line before the
  call), the two kinds of timer the file sets, and the two places where it awaits the
  promise of \<open>launcher.relaunch\<close>: the \<open>finally\<close> block of the auto-relaunch callback, and
  the rest of the watchdog's loop over the stale sessions.
\<close>

datatype relaunch_path = AutoRelaunch | Watchdog

datatype timer = Cooldown string | ReconnectWatchdog

datatype continuation = AfterAutoRelaunch string | WatchdogRest "string list"

text \<open>
  \<open>clock\<close> is the time in milliseconds since the server started; \<open>timers\<close> holds each
  pending timeout with the time it is due; \<open>awaiting\<close> holds each pending promise of
  \<open>launcher.relaunch\<close> with what runs when it settles; \<open>relaunchCalls\<close> records every
  call of \<open>launcher.relaunch\<close> with the time of the call.
\<close>

record server =
  launcher :: "SdkSessionInfo list"
  relaunchingSet :: "string set"
  clock :: nat
  timers :: "(nat \<times> timer) list"
  nextPromise :: nat
  awaiting :: "(nat \<times> continuation) list"
  relaunchCalls :: "(nat \<times> relaunch_path \<times> string) list"

definition RECONNECT_GRACE_MS :: nat where
  "RECONNECT_GRACE_MS = 10000"

text \<open>
  Modelled from the spec: \<open>launcher.relaunch\<close> is not among the sources. A call is
  recorded and leaves a pending promise; what the launcher then does to its table
  (the spawned process is \<open>starting\<close>, a process exits) arrives as separate events.
\<close>

definition callRelaunch :: "relaunch_path \<Rightarrow> string \<Rightarrow> continuation \<Rightarrow> server \<Rightarrow> server" where
  "callRelaunch path sid k s =
     s\<lparr>relaunchCalls := relaunchCalls s @ [(clock s, path, sid)],
       awaiting := awaiting s @ [(nextPromise s, k)],
       nextPromise := nextPromise s + 1\<rparr>"

text \<open>The callback given to \<open>onCLIRelaunchNeededCallback\<close>, up to its \<open>await\<close>.\<close>

definition onCLIRelaunchNeeded :: "string \<Rightarrow> server \<Rightarrow> server" where
  "onCLIRelaunchNeeded sid s =
     (if sid \<in> relaunchingSet s then s
      else
        (case getSession (launcher s) sid of
           None \<Rightarrow> s
         | Some info \<Rightarrow>
             if archived info then s
             else if state info \<noteq> Starting
             then callRelaunch AutoRelaunch sid (AfterAutoRelaunch sid)
                    (s\<lparr>relaunchingSet := insert sid (relaunchingSet s)\<rparr>)
             else s))"

text \<open>Its \<open>finally\<close> block: the timeout that takes the session out of the set.\<close>

definition autoRelaunchFinally :: "string \<Rightarrow> server \<Rightarrow> server" where
  "autoRelaunchFinally sid s = s\<lparr>timers := timers s @ [(clock s + 5000, Cooldown sid)]\<rparr>"

text \<open>The watchdog's loop over the stale sessions, up to its next \<open>await\<close>.\<close>

fun watchdogLoop :: "string list \<Rightarrow> server \<Rightarrow> server" where
  "watchdogLoop [] s = s"
| "watchdogLoop (sid # rest) s =
     (if archivedOf (launcher s) sid then watchdogLoop rest s
      else callRelaunch Watchdog sid (WatchdogRest rest) s)"

text \<open>The module's top level: the timer is set only when a session is starting.\<close>

definition boot :: "SdkSessionInfo list \<Rightarrow> server" where
  "boot l =
     \<lparr>launcher = l, relaunchingSet = {}, clock = 0,
      timers = (if length (getStartingSessions l) > 0 then [(RECONNECT_GRACE_MS, ReconnectWatchdog)] else []),
      nextPromise = 0, awaiting = [], relaunchCalls = []\<rparr>"

definition fire :: "timer \<Rightarrow> server \<Rightarrow> server" where
  "fire tm s =
     (case tm of
        Cooldown sid \<Rightarrow> s\<lparr>relaunchingSet := relaunchingSet s - {sid}\<rparr>
      | ReconnectWatchdog \<Rightarrow> watchdogLoop (map sessionId (getStartingSessions (launcher s))) s)"

text \<open>
  A promise of \<open>launcher.relaunch\<close> settles, resolved (\<open>True\<close>) or rejected. The
  \<open>finally\<close> block runs either way; a rejection leaves the watchdog's loop.
\<close>

definition settle :: "nat \<Rightarrow> bool \<Rightarrow> server \<Rightarrow> server" where
  "settle p ok s =
     (case map_of (awaiting s) p of
        None \<Rightarrow> s
      | Some k \<Rightarrow>
          (let s1 = s\<lparr>awaiting := filter (\<lambda>a. fst a \<noteq> p) (awaiting s)\<rparr> in
           case k of
             AfterAutoRelaunch sid \<Rightarrow> autoRelaunchFinally sid s1
           | WatchdogRest rest \<Rightarrow> if ok then watchdogLoop rest s1 else s1))"

text \<open>Time passes: the timers that are due fire, in the order of their due times.\<close>

definition advance :: "nat \<Rightarrow> server \<Rightarrow> server" where
  "advance d s =
     (let now = clock s + d;
          due = filter (\<lambda>t. fst t \<le> now) (timers s);
          later = filter (\<lambda>t. \<not> fst t \<le> now) (timers s)
      in foldl (\<lambda>s' t. fire (snd t) s') (s\<lparr>clock := now, timers := later\<rparr>) (sort_key fst due))"

text \<open>
  What happens to the server: an agent's socket opens, the bridge asks for a relaunch
  (a browser attached to a session without an agent), a promise settles, time passes, or
  the launcher changes the state of one of its records.
\<close>

datatype event =
    CliOpen string
  | RelaunchNeeded string
  | Settled nat bool
  | Advance nat
  | LauncherChanged string proc_state

definition step :: "event \<Rightarrow> server \<Rightarrow> server" where
  "step e s =
     (case e of
        CliOpen sid \<Rightarrow> s\<lparr>launcher := markConnected sid (launcher s)\<rparr>
      | RelaunchNeeded sid \<Rightarrow> onCLIRelaunchNeeded sid s
      | Settled p ok \<Rightarrow> settle p ok s
      | Advance d \<Rightarrow> advance d s
      | LauncherChanged sid st \<Rightarrow> s\<lparr>launcher := setState sid st (launcher s)\<rparr>)"

fun run :: "event list \<Rightarrow> server \<Rightarrow> server" where
  "run [] s = s"
| "run (e # es) s = run es (step e s)"

subsection \<open>What the claims are stated with\<close>



definition callsFor :: "relaunch_path \<Rightarrow> string \<Rightarrow> server \<Rightarrow> (nat \<times> relaunch_path \<times> string) list" where
  "callsFor path sid s = filter (\<lambda>c. fst (snd c) = path \<and> snd (snd c) = sid) (relaunchCalls s)"

subsection \<open>Invariants of the server, and a sample table\<close>

text \<open>The state after some code of the file has run: the table and the clock are as
  before, and every call added is for a session that is not archived, at the current time.\<close>

definition grown :: "server \<Rightarrow> server \<Rightarrow> bool" where
  "grown s s' \<longleftrightarrow>
     launcher s' = launcher s \<and> clock s' = clock s \<and>
     (\<exists>new. relaunchCalls s' = relaunchCalls s @ new \<and>
        (\<forall>c \<in> set new. fst c = clock s \<and> \<not> archivedOf (launcher s) (snd (snd c))))"

text \<open>A step: the archived flags stay, the clock does not go back, and the calls added
  are for sessions that are not archived, at the time reached.\<close>

definition stepped :: "server \<Rightarrow> server \<Rightarrow> bool" where
  "stepped s s' \<longleftrightarrow>
     archivedOf (launcher s') = archivedOf (launcher s) \<and> clock s \<le> clock s' \<and>
     (\<exists>new. relaunchCalls s' = relaunchCalls s @ new \<and>
        (\<forall>c \<in> set new. fst c = clock s' \<and> \<not> archivedOf (launcher s) (snd (snd c))))"




definition isWatchdogRest :: "nat \<times> continuation \<Rightarrow> bool" where
  "isWatchdogRest a = (case snd a of WatchdogRest r \<Rightarrow> True | AfterAutoRelaunch x \<Rightarrow> False)"


definition staleIds :: "server \<Rightarrow> string list" where
  "staleIds s = map sessionId (getStartingSessions (launcher s))"

definition eligible :: "server \<Rightarrow> string list" where
  "eligible s = filter (\<lambda>x. \<not> archivedOf (launcher s) x) (staleIds s)"


definition keys_ok :: "server \<Rightarrow> bool" where
  "keys_ok s \<longleftrightarrow> distinct (map fst (awaiting s)) \<and> (\<forall>a \<in> set (awaiting s). fst a < nextPromise s)"

definition sampleTable :: "SdkSessionInfo list" where
  "sampleTable =
     [\<lparr>sessionId = ''a1'', state = Exited, archived = False\<rparr>,
      \<lparr>sessionId = ''b2'', state = Starting, archived = False\<rparr>,
      \<lparr>sessionId = ''c3'', state = Starting, archived = True\<rparr>]"








section \<open>Properties of the push subscriptions\<close>

lemma findIndex_None: "findIndex P xs = None \<longleftrightarrow> (\<forall>x \<in> set xs. \<not> P x)"
  by (induction xs) (auto split: option.splits)

lemma findIndex_Some: "findIndex P xs = Some i \<Longrightarrow> i < length xs \<and> P (xs ! i) \<and> (\<forall>j < i. \<not> P (xs ! j))"
proof (induction xs arbitrary: i)
  case Nil
  then show ?case by simp
next
  case (Cons x xs)
  show ?case
  proof (cases "P x")
    case True
    with Cons.prems show ?thesis by simp
  next
    case False
    with Cons.prems obtain k where k: "findIndex P xs = Some k" "i = Suc k"
      by (auto split: option.splits)
    from Cons.IH[OF k(1)] False k(2) show ?thesis
      by (auto simp: less_Suc_eq_0_disj)
  qed
qed

lemma map_endpoint_update:
  "i < length subs \<Longrightarrow> endpoint (subs ! i) = endpoint sub \<Longrightarrow>
   map endpoint (subs[i := sub]) = map endpoint subs"
  by (simp add: list_eq_iff_nth_eq nth_list_update)

lemma add_existing:
  assumes "findIndex (\<lambda>s. endpoint s = endpoint sub) (loadSubscriptions st) = Some i"
  shows "loadSubscriptions (addSubscription sub st) = (loadSubscriptions st)[i := sub]"
  using assms by (simp add: addSubscription_def saveSubscriptions_def loadSubscriptions_def Let_def)

lemma add_fresh:
  assumes "findIndex (\<lambda>s. endpoint s = endpoint sub) (loadSubscriptions st) = None"
  shows "loadSubscriptions (addSubscription sub st) = loadSubscriptions st @ [sub]"
  using assms by (simp add: addSubscription_def saveSubscriptions_def loadSubscriptions_def Let_def)

lemma add_distinct:
  assumes "distinct (map endpoint (loadSubscriptions st))"
  shows "distinct (map endpoint (loadSubscriptions (addSubscription sub st)))"
proof (cases "findIndex (\<lambda>s. endpoint s = endpoint sub) (loadSubscriptions st)")
  case None
  then have "endpoint sub \<notin> endpoint ` set (loadSubscriptions st)"
    by (auto simp: findIndex_None)
  with assms show ?thesis by (simp add: add_fresh[OF None])
next
  case (Some i)
  from findIndex_Some[OF Some] assms show ?thesis
    by (simp add: add_existing[OF Some] map_endpoint_update)
qed

lemma remove_unknown:
  assumes "ep \<notin> endpoint ` set (loadSubscriptions st)"
  shows "removeSubscription ep st = (False, st)"
proof -
  have "filter (\<lambda>s. endpoint s \<noteq> ep) (loadSubscriptions st) = loadSubscriptions st"
    using assms by (auto simp: filter_id_conv)
  then show ?thesis by (simp add: removeSubscription_def Let_def)
qed

text \<open>
  Claim C9. A stored list with at most one subscription per endpoint keeps that property
  under \<open>addSubscription\<close>. Adding a subscription whose endpoint is already stored
  replaces the entry in place: the number of subscriptions and the order of the endpoints
  are unchanged, the new subscription is stored, and the keys stored for that endpoint are
  the new ones. \<open>removeSubscription\<close> of an endpoint that is not stored returns false and
  leaves the state, and so the stored list, unchanged.
\<close>

theorem addSubscription_one_per_endpoint:
  assumes "distinct (map endpoint (loadSubscriptions st))"
  shows "distinct (map endpoint (loadSubscriptions (addSubscription sub st)))
       \<and> (endpoint sub \<in> endpoint ` set (loadSubscriptions st) \<longrightarrow>
            length (loadSubscriptions (addSubscription sub st)) = length (loadSubscriptions st)
          \<and> map endpoint (loadSubscriptions (addSubscription sub st)) = map endpoint (loadSubscriptions st)
          \<and> sub \<in> set (loadSubscriptions (addSubscription sub st))
          \<and> (\<forall>s \<in> set (loadSubscriptions (addSubscription sub st)). endpoint s = endpoint sub \<longrightarrow> keys s = keys sub))
       \<and> (ep \<notin> endpoint ` set (loadSubscriptions st) \<longrightarrow> removeSubscription ep st = (False, st))"
proof (intro conjI impI)
  show "distinct (map endpoint (loadSubscriptions (addSubscription sub st)))"
    by (rule add_distinct[OF assms])
next
  assume "ep \<notin> endpoint ` set (loadSubscriptions st)"
  then show "removeSubscription ep st = (False, st)" by (rule remove_unknown)
next
  let ?new = "loadSubscriptions (addSubscription sub st)"
  assume "endpoint sub \<in> endpoint ` set (loadSubscriptions st)"
  then obtain i where i: "findIndex (\<lambda>s. endpoint s = endpoint sub) (loadSubscriptions st) = Some i"
    by (cases "findIndex (\<lambda>s. endpoint s = endpoint sub) (loadSubscriptions st)")
       (auto simp: findIndex_None)
  note fi = findIndex_Some[OF i]
  have new: "?new = (loadSubscriptions st)[i := sub]" by (rule add_existing[OF i])
  show "length ?new = length (loadSubscriptions st)" by (simp add: new)
  show "map endpoint ?new = map endpoint (loadSubscriptions st)"
    using fi by (simp add: new map_endpoint_update)
  show mem: "sub \<in> set ?new" using fi by (simp add: new set_update_memI)
  have d: "distinct (map endpoint ?new)" by (rule add_distinct[OF assms])
  have "\<forall>s \<in> set ?new. endpoint s = endpoint sub \<longrightarrow> s = sub"
    using d mem by (meson distinct_map inj_onD)
  then show "\<forall>s \<in> set ?new. endpoint s = endpoint sub \<longrightarrow> keys s = keys sub" by auto
qed

text \<open>The test's scenario: the keys of the first of two subscriptions are updated, and an
  unknown endpoint is removed.\<close>

theorem addSubscription_one_per_endpoint_witness:
  "distinct (map endpoint (loadSubscriptions (stored [sub1, sub2])))
   \<and> loadSubscriptions (addSubscription sub1_updated (stored [sub1, sub2])) = [sub1_updated, sub2]
   \<and> removeSubscription ''https://unknown.example.com'' (stored [sub1, sub2]) = (False, stored [sub1, sub2])"
proof -
  have d: "distinct (map endpoint (loadSubscriptions (stored [sub1, sub2])))"
    by (simp add: stored_def loadSubscriptions_def sub1_def sub2_def)
  have a: "loadSubscriptions (addSubscription sub1_updated (stored [sub1, sub2])) = [sub1_updated, sub2]"
    by (simp add: stored_def loadSubscriptions_def addSubscription_def saveSubscriptions_def
        sub1_def sub2_def sub1_updated_def)
  have u: "''https://unknown.example.com'' \<notin> endpoint ` set (loadSubscriptions (stored [sub1, sub2]))"
    by (simp add: stored_def loadSubscriptions_def sub1_def sub2_def)
  from addSubscription_one_per_endpoint[OF d, of sub1_updated "''https://unknown.example.com''"] u
  have "removeSubscription ''https://unknown.example.com'' (stored [sub1, sub2]) = (False, stored [sub1, sub2])"
    by blast
  with d a show ?thesis by blast
qed

lemma notify_expired:
  "fst (notify send s) = (if send s = Rejected (StatusCode 410) \<or> send s = Rejected (StatusCode 404) then [endpoint s] else [])"
  by (auto simp: notify_def split: send_result.splits rejection.splits)

lemma expired_set:
  "set (concat (map (\<lambda>sub. fst (notify send sub)) subs))
     = endpoint ` {s \<in> set subs. send s = Rejected (StatusCode 410) \<or> send s = Rejected (StatusCode 404)}"
  by (induction subs) (auto simp: notify_expired)

lemma filter_expired:
  assumes "distinct (map endpoint subs)"
  shows "filter (\<lambda>s. endpoint s \<notin> set (concat (map (\<lambda>sub. fst (notify send sub)) subs))) subs
       = filter (\<lambda>s. \<not> (send s = Rejected (StatusCode 410) \<or> send s = Rejected (StatusCode 404))) subs"
proof (rule filter_cong[OF refl])
  fix s assume s: "s \<in> set subs"
  have "\<And>s'. s' \<in> set subs \<Longrightarrow> endpoint s' = endpoint s \<Longrightarrow> s' = s"
    using assms s by (meson distinct_map inj_onD)
  then show "(endpoint s \<notin> set (concat (map (\<lambda>sub. fst (notify send sub)) subs)))
        = (\<not> (send s = Rejected (StatusCode 410) \<or> send s = Rejected (StatusCode 404)))"
    unfolding expired_set using s by auto
qed

lemma loadVapidKeys_subs: "loadVapidKeys g st = Inr (k, st1) \<Longrightarrow> subs_file st1 = subs_file st"
  by (auto simp: loadVapidKeys_def split: option.splits vapid_file.splits)

lemma loadVapidKeys_error:
  "loadVapidKeys g st = Inl e \<Longrightarrow> e = SyntaxError \<and> vapidKeys st = None \<and> vapid_file st = CorruptKeysFile"
  by (auto simp: loadVapidKeys_def split: option.splits vapid_file.splits)

text \<open>
  Claim C10. With at most one stored subscription per endpoint, a \<open>sendPushToAll\<close> that
  returns leaves stored exactly the subscriptions whose send did not reject with status
  410 or 404: those are removed, and a subscription whose send succeeded or rejected with
  any other status (or with no status at all) stays. The call throws only before any
  notification is sent, where the VAPID keys cannot be read (no cached keys and a keys
  file that does not parse) or \<open>webpush.setVapidDetails\<close> refuses them: then the stored
  list is unchanged, and the outcome is the same whatever the push service would have
  answered. No send failure leaves \<open>sendPushToAll\<close> as an exception.
\<close>

theorem sendPushToAll_prunes_expired:
  assumes "distinct (map endpoint (loadSubscriptions st))"
  shows "case sendPushToAll generated setVapidDetails sendNotification st of
           Inl (e, st') \<Rightarrow>
             loadSubscriptions st \<noteq> [] \<and> loadSubscriptions st' = loadSubscriptions st
             \<and> sendPushToAll generated setVapidDetails anyService st = Inl (e, st')
             \<and> (case loadVapidKeys generated st of
                   Inl e' \<Rightarrow> e = SyntaxError \<and> vapidKeys st = None \<and> vapid_file st = CorruptKeysFile
                             \<and> st' = st
                 | Inr (k, st1) \<Rightarrow> e = VapidError \<and> st' = st1
                     \<and> \<not> setVapidDetails ''mailto:companion@localhost'' (publicKey k) (privateKey k))
         | Inr st' \<Rightarrow>
             loadSubscriptions st' =
               filter (\<lambda>s. \<not> (sendNotification s = Rejected (StatusCode 410)
                              \<or> sendNotification s = Rejected (StatusCode 404)))
                 (loadSubscriptions st)"
proof (cases "loadSubscriptions st = []")
  case True
  then show ?thesis by (simp add: sendPushToAll_def)
next
  case False
  show ?thesis
  proof (cases "loadVapidKeys generated st")
    case (Inl e)
    with False loadVapidKeys_error[OF Inl] show ?thesis by (simp add: sendPushToAll_def)
  next
    case (Inr p)
    obtain k st1 where p: "p = (k, st1)" by (cases p)
    have l: "loadSubscriptions st1 = loadSubscriptions st"
      using loadVapidKeys_subs[OF Inr[unfolded p]] by (simp add: loadSubscriptions_def)
    show ?thesis
    proof (cases "setVapidDetails ''mailto:companion@localhost'' (publicKey k) (privateKey k)")
      case refused: False
      with False Inr p l show ?thesis by (simp add: sendPushToAll_def)
    next
      case accepted: True
      let ?expired = "concat (map (\<lambda>sub. fst (notify sendNotification sub)) (loadSubscriptions st))"
      show ?thesis
      proof (cases "?expired = []")
        case True
        have "filter (\<lambda>s. endpoint s \<notin> set ?expired) (loadSubscriptions st) = loadSubscriptions st"
          unfolding True by simp
        with filter_expired[OF assms, of sendNotification] False Inr p l True accepted show ?thesis
          by (simp add: sendPushToAll_def)
      next
        case nonempty: False
        with filter_expired[OF assms, of sendNotification] False Inr p l accepted show ?thesis
          by (simp add: sendPushToAll_def saveSubscriptions_def loadSubscriptions_def)
      qed
    qed
  qed
qed

text \<open>Two subscriptions, the second answered with 410 and the first with 500: only the
  first remains. Where \<open>setVapidDetails\<close> refuses the keys, both remain.\<close>

theorem sendPushToAll_prunes_expired_witness:
  "distinct (map endpoint (loadSubscriptions (stored [sub1, sub2])))
   \<and> (case sendPushToAll testKeys acceptKeys goneOrBusy (stored [sub1, sub2]) of
         Inl e \<Rightarrow> False
       | Inr st' \<Rightarrow> loadSubscriptions st' = [sub1])
   \<and> (case sendPushToAll testKeys refuseKeys goneOrBusy (stored [sub1, sub2]) of
         Inl (e, st') \<Rightarrow> e = VapidError \<and> loadSubscriptions st' = [sub1, sub2]
       | Inr st' \<Rightarrow> False)"
proof -
  have d: "distinct (map endpoint (loadSubscriptions (stored [sub1, sub2])))"
    by (simp add: stored_def loadSubscriptions_def sub1_def sub2_def)
  have f: "filter (\<lambda>s. \<not> (goneOrBusy s = Rejected (StatusCode 410) \<or> goneOrBusy s = Rejected (StatusCode 404)))
             (loadSubscriptions (stored [sub1, sub2])) = [sub1]"
    by (simp add: stored_def loadSubscriptions_def sub1_def sub2_def goneOrBusy_def)
  have k: "loadVapidKeys testKeys (stored [sub1, sub2])
      = Inr (testKeys, (stored [sub1, sub2])\<lparr>vapidKeys := Some testKeys, vapid_file := KeysFile testKeys\<rparr>)"
    by (simp add: loadVapidKeys_def stored_def)
  have l: "loadSubscriptions (stored [sub1, sub2]) = [sub1, sub2]"
    by (simp add: stored_def loadSubscriptions_def)
  from sendPushToAll_prunes_expired[OF d, where generated=testKeys and setVapidDetails=acceptKeys
      and sendNotification=goneOrBusy] f k
  have a: "case sendPushToAll testKeys acceptKeys goneOrBusy (stored [sub1, sub2]) of
         Inl e \<Rightarrow> False
       | Inr st' \<Rightarrow> loadSubscriptions st' = [sub1]"
    by (cases "sendPushToAll testKeys acceptKeys goneOrBusy (stored [sub1, sub2])")
       (auto simp: acceptKeys_def)
  from sendPushToAll_prunes_expired[OF d, where generated=testKeys and setVapidDetails=refuseKeys
      and sendNotification=goneOrBusy] k l
  have r: "case sendPushToAll testKeys refuseKeys goneOrBusy (stored [sub1, sub2]) of
         Inl (e, st') \<Rightarrow> e = VapidError \<and> loadSubscriptions st' = [sub1, sub2]
       | Inr st' \<Rightarrow> False"
    by (cases "sendPushToAll testKeys refuseKeys goneOrBusy (stored [sub1, sub2])")
       (auto simp: refuseKeys_def sendPushToAll_def Let_def)
  from d a r show ?thesis by (intro conjI)
qed

section \<open>Properties of the frame handler\<close>

lemma beside_tasks_get: assumes "beside_tasks g" shows "sessionTasks (g s) = sessionTasks s"
proof -
  have "g (s\<lparr>sessionTasks := sessionTasks s\<rparr>) = (g s)\<lparr>sessionTasks := sessionTasks s\<rparr>"
    using assms unfolding beside_tasks_def by blast
  then have "g s = (g s)\<lparr>sessionTasks := sessionTasks s\<rparr>" by simp
  then have "sessionTasks (g s) = sessionTasks ((g s)\<lparr>sessionTasks := sessionTasks s\<rparr>)" by simp
  then show ?thesis by simp
qed

lemma addTask_upd: "addTask sid t s = s\<lparr>sessionTasks := (sessionTasks s)(sid \<mapsto> (case sessionTasks s sid of None \<Rightarrow> [] | Some ts \<Rightarrow> ts) @ [t])\<rparr>"
  by (simp add: addTask_def)

lemma updateTask_upd: "updateTask sid i u s = s\<lparr>sessionTasks := (case sessionTasks s sid of None \<Rightarrow> sessionTasks s
   | Some tasks \<Rightarrow> (sessionTasks s)(sid \<mapsto> map (\<lambda>t. if task_id t = i then applyUpdates u t else t) tasks))\<rparr>"
  by (simp add: updateTask_def split: option.splits)

lemma beside_addTask: "beside_tasks g \<Longrightarrow> addTask sid t (g s) = g (addTask sid t s)"
  unfolding addTask_upd by (simp add: beside_tasks_get) (simp add: beside_tasks_def)

lemma beside_setTasks: "beside_tasks g \<Longrightarrow> setTasks sid ts (g s) = g (setTasks sid ts s)"
  unfolding setTasks_def by (simp add: beside_tasks_get) (simp add: beside_tasks_def)

lemma beside_updateTask:
  assumes "beside_tasks g"
  shows "updateTask sid i u (g s) = g (updateTask sid i u s)"
proof -
  have "g (s\<lparr>sessionTasks := F\<rparr>) = (g s)\<lparr>sessionTasks := F\<rparr>" for F
    using assms unfolding beside_tasks_def by blast
  then show ?thesis
    unfolding updateTask_upd by (simp add: beside_tasks_get[OF assms] cong: option.case_cong)
qed

lemma onStore_simps:
  "store (onStore g w) = g (store w)"
  "taskCounters (onStore g w) = taskCounters w"
  "processedToolUseIds (onStore g w) = processedToolUseIds w"
  "idCounter (onStore g w) = idCounter w"
  "processed (onStore g w) = processed w"
  by (simp_all add: onStore_def processed_def fun_eq_iff)

lemma todoWrite_onStore: "beside_tasks g \<Longrightarrow> todoWrite sid i (onStore g w) = onStore g (todoWrite sid i w)"
  by (simp add: todoWrite_def onStore_def beside_setTasks split: option.splits)

lemma taskCreate_onStore: "beside_tasks g \<Longrightarrow> taskCreate sid i (onStore g w) = onStore g (taskCreate sid i w)"
  by (simp add: taskCreate_def onStore_def beside_addTask Let_def)

lemma taskUpdate_onStore: "beside_tasks g \<Longrightarrow> taskUpdate sid i (onStore g w) = onStore g (taskUpdate sid i w)"
  by (simp add: taskUpdate_def onStore_def beside_updateTask Let_def)

lemma markProcessed_onStore: "markProcessed sid x (onStore g w) = onStore g (markProcessed sid x w)"
  by (simp add: markProcessed_def onStore_def processed_def)

lemma extractBlock_onStore:
  assumes "beside_tasks g"
  shows "extractBlock sid b (onStore g w) = onStore g (extractBlock sid b w)"
  by (cases b)
     (simp_all add: extractBlock_def Let_def onStore_simps markProcessed_onStore
        todoWrite_onStore[OF assms] taskCreate_onStore[OF assms] taskUpdate_onStore[OF assms])

lemma getProcessedSet_onStore: "getProcessedSet sid (onStore g w) = onStore g (getProcessedSet sid w)"
  by (simp add: getProcessedSet_def onStore_def split: option.splits)

lemma foldl_extract_onStore:
  assumes "beside_tasks g"
  shows "foldl (\<lambda>w' b. extractBlock sid b w') (onStore g w) bs
       = onStore g (foldl (\<lambda>w' b. extractBlock sid b w') w bs)"
  by (induction bs arbitrary: w) (simp_all add: extractBlock_onStore[OF assms])

lemma extractTasksFromBlocks_onStore:
  assumes "beside_tasks g"
  shows "extractTasksFromBlocks sid bs (onStore g w) = onStore g (extractTasksFromBlocks sid bs w)"
  by (simp add: extractTasksFromBlocks_def getProcessedSet_onStore foldl_extract_onStore[OF assms])

lemma extractBlock_untouched:
  "messages (store (extractBlock sid b w)) = messages (store w)"
  "streaming (store (extractBlock sid b w)) = streaming (store w)"
  "streamingStartedAt (store (extractBlock sid b w)) = streamingStartedAt (store w)"
  "streamingOutputTokens (store (extractBlock sid b w)) = streamingOutputTokens (store w)"
  "pendingPermissions (store (extractBlock sid b w)) = pendingPermissions (store w)"
  "idCounter (extractBlock sid b w) = idCounter w"
  by (cases b; simp add: extractBlock_def todoWrite_def taskCreate_def taskUpdate_def markProcessed_def
        addTask_def setTasks_def updateTask_def Let_def split: option.splits)+

lemma foldl_extract_untouched:
  "messages (store (foldl (\<lambda>w' b. extractBlock sid b w') w bs)) = messages (store w)"
  "streaming (store (foldl (\<lambda>w' b. extractBlock sid b w') w bs)) = streaming (store w)"
  "streamingStartedAt (store (foldl (\<lambda>w' b. extractBlock sid b w') w bs)) = streamingStartedAt (store w)"
  "streamingOutputTokens (store (foldl (\<lambda>w' b. extractBlock sid b w') w bs)) = streamingOutputTokens (store w)"
  "pendingPermissions (store (foldl (\<lambda>w' b. extractBlock sid b w') w bs)) = pendingPermissions (store w)"
  "idCounter (foldl (\<lambda>w' b. extractBlock sid b w') w bs) = idCounter w"
  by (induction bs arbitrary: w; simp add: extractBlock_untouched)+

lemma getProcessedSet_store: "store (getProcessedSet sid w) = store w"
  "idCounter (getProcessedSet sid w) = idCounter w"
  "taskCounters (getProcessedSet sid w) = taskCounters w"
  by (simp_all add: getProcessedSet_def split: option.splits)

lemma getProcessedSet_processed: "processed (getProcessedSet sid w) = processed w"
  by (auto simp: getProcessedSet_def processed_def fun_eq_iff split: option.splits)

lemma extractTasksFromBlocks_untouched:
  "messages (store (extractTasksFromBlocks sid bs w)) = messages (store w)"
  "streaming (store (extractTasksFromBlocks sid bs w)) = streaming (store w)"
  "streamingStartedAt (store (extractTasksFromBlocks sid bs w)) = streamingStartedAt (store w)"
  "streamingOutputTokens (store (extractTasksFromBlocks sid bs w)) = streamingOutputTokens (store w)"
  "pendingPermissions (store (extractTasksFromBlocks sid bs w)) = pendingPermissions (store w)"
  "idCounter (extractTasksFromBlocks sid bs w) = idCounter w"
  by (simp_all add: extractTasksFromBlocks_def foldl_extract_untouched getProcessedSet_store)

lemma extractBlock_skip:
  assumes "x \<noteq> []" "x \<in> processed w sid"
  shows "extractBlock sid (ToolUse (Some x) name inp) w = w"
  using assms by (simp add: extractBlock_def truthy_def)

lemma processed_markProcessed: "processed (markProcessed sid x w) sid' = (if sid' = sid then insert x (processed w sid) else processed w sid')"
  by (simp add: markProcessed_def processed_def)

lemma processed_tools:
  "processed (todoWrite sid i w) = processed w"
  "processed (taskCreate sid i w) = processed w"
  "processed (taskUpdate sid i w) = processed w"
  by (simp_all add: todoWrite_def taskCreate_def taskUpdate_def processed_def Let_def fun_eq_iff split: option.splits)

lemma extractBlock_processed_mono:
  "x \<in> processed w sid' \<Longrightarrow> x \<in> processed (extractBlock sid b w) sid'"
  by (cases b) (auto simp: extractBlock_def Let_def processed_tools processed_markProcessed)

lemma foldl_extract_processed_mono:
  "x \<in> processed w sid' \<Longrightarrow> x \<in> processed (foldl (\<lambda>w' b. extractBlock sid b w') w bs) sid'"
  by (induction bs arbitrary: w) (simp_all add: extractBlock_processed_mono)

lemma extractTasksFromBlocks_processed_mono:
  "x \<in> processed w sid' \<Longrightarrow> x \<in> processed (extractTasksFromBlocks sid bs w) sid'"
  by (simp add: extractTasksFromBlocks_def foldl_extract_processed_mono getProcessedSet_processed)

lemma extract_skip_processed:
  assumes "x \<noteq> []" "x \<in> processed w sid"
  shows "extractTasksFromBlocks sid (pre @ [ToolUse (Some x) name inp] @ post) w
       = extractTasksFromBlocks sid (pre @ post) w"
proof -
  let ?f = "\<lambda>w' b. extractBlock sid b w'"
  have "x \<in> processed (foldl ?f (getProcessedSet sid w) pre) sid"
    using assms(2) by (simp add: foldl_extract_processed_mono getProcessedSet_processed)
  then show ?thesis
    by (simp add: extractTasksFromBlocks_def extractBlock_skip[OF assms(1)])
qed

lemma taskCreate_fresh:
  assumes "x \<noteq> []" "x \<notin> processed w sid"
  shows "tasksOf (extractTasksFromBlocks sid [ToolUse (Some x) (Some ''TaskCreate'') (Some i)] w) sid
           = tasksOf w sid @
             [\<lparr>task_id = string_of_nat ((case taskCounters w sid of None \<Rightarrow> 0 | Some c \<Rightarrow> c) + 1),
               subject = (if truthy (in_subject i) then the (in_subject i) else ''Task''),
               description = (if truthy (in_description i) then the (in_description i) else []),
               activeForm = in_activeForm i, status = ''pending'', owner = None, blockedBy = None\<rparr>]"
    and "x \<in> processed (extractTasksFromBlocks sid [ToolUse (Some x) (Some ''TaskCreate'') (Some i)] w) sid"
  using assms
  by (simp_all add: extractTasksFromBlocks_def extractBlock_def truthy_def getProcessedSet_processed
        getProcessedSet_store Let_def taskCreate_def tasksOf_def addTask_def processed_markProcessed
        markProcessed_def processed_def)

lemma appendMessage_alt:
  "appendMessage sid m s =
     (if dup_id sid m s then s
      else s\<lparr>messages := (messages s)(sid \<mapsto> (case messages s sid of None \<Rightarrow> [] | Some ms \<Rightarrow> ms) @ [m])\<rparr>)"
  unfolding appendMessage_def dup_id_def Let_def ..

lemma dup_id_tasks: "dup_id sid m (s\<lparr>sessionTasks := f\<rparr>) = dup_id sid m s"
  by (simp add: dup_id_def)

lemma beside_tasks_actions:
  "beside_tasks (appendMessage sid m)"
  "beside_tasks (setStreaming sid tx)"
  "beside_tasks (setStreamingStats sid stats)"
  "beside_tasks (setSessionStatus sid st)"
  "beside_tasks (addPermission sid req)"
proof -
  show "beside_tasks (appendMessage sid m)"
    unfolding beside_tasks_def appendMessage_alt by (simp add: dup_id_tasks)
  show "beside_tasks (setStreaming sid tx)"
    by (cases tx) (simp_all add: beside_tasks_def setStreaming_def)
  show "beside_tasks (setStreamingStats sid stats)"
    by (cases stats) (auto simp: beside_tasks_def setStreamingStats_def split: option.splits)
  show "beside_tasks (setSessionStatus sid st)"
    by (simp add: beside_tasks_def setSessionStatus_def)
  show "beside_tasks (addPermission sid req)"
    by (simp add: beside_tasks_def addPermission_def Let_def)
qed

lemma beside_tasks_comp: "beside_tasks f \<Longrightarrow> beside_tasks g \<Longrightarrow> beside_tasks (\<lambda>s. f (g s))"
  by (simp add: beside_tasks_def)

lemma beside_tasks_if: "beside_tasks f \<Longrightarrow> beside_tasks g \<Longrightarrow> beside_tasks (\<lambda>s. if c then f s else g s)"
  by (simp add: beside_tasks_def)

lemma beside_tasks_id: "beside_tasks (\<lambda>s. s)"
  by (simp add: beside_tasks_def)

lemmas tasks_update_out = beside_tasks_actions[unfolded beside_tasks_def, rule_format]

lemma beside_assistantStore: "beside_tasks (assistantStore e sid m p snapshot)"
  unfolding beside_tasks_def assistantStore_def by (simp add: tasks_update_out)

lemma extract_nil: "extractTasksFromBlocks sid [] w = getProcessedSet sid w"
  by (simp add: extractTasksFromBlocks_def)

lemma handleMessage_malformed: "JSON_parse e l = None \<Longrightarrow> handleMessage e sid l w = w"
  by (simp add: handleMessage_def)

lemma handleMessage_assistant_outer:
  assumes "JSON_parse e l = Some (AssistantFrame m p)"
  shows "handleMessage e sid l w =
           (if a_content m \<noteq> []
            then extractTasksFromBlocks sid (a_content m) (onStore (assistantStore e sid m p (store w)) w)
            else onStore (assistantStore e sid m p (store w)) w)"
  using assms by (simp add: handleMessage_def Let_def onStore_def assistantStore_def)

lemma handleMessage_assistant:
  assumes "JSON_parse e l = Some (AssistantFrame m p)"
  shows "handleMessage e sid l w =
           (if a_content m \<noteq> []
            then onStore (assistantStore e sid m p (store w)) (extractTasksFromBlocks sid (a_content m) w)
            else onStore (assistantStore e sid m p (store w)) w)"
  by (simp add: handleMessage_assistant_outer[OF assms] extractTasksFromBlocks_onStore[OF beside_assistantStore])

lemma assistant_tasks:
  assumes "JSON_parse e l = Some (AssistantFrame m p)"
  shows "sessionTasks (store (handleMessage e sid l w)) = sessionTasks (store (extractTasksFromBlocks sid (a_content m) w))"
    and "taskCounters (handleMessage e sid l w) = taskCounters (extractTasksFromBlocks sid (a_content m) w)"
    and "processed (handleMessage e sid l w) = processed (extractTasksFromBlocks sid (a_content m) w)"
  by (simp_all add: handleMessage_assistant[OF assms] onStore_simps
        beside_tasks_get[OF beside_assistantStore] extract_nil getProcessedSet_store getProcessedSet_processed)

lemma assistantStore_fields:
  "messages (assistantStore e sid m p snap s) = messages (appendMessage sid (assistantChatMessage (Date_now e) m p) s)"
  "streaming (assistantStore e sid m p snap s) sid = None"
  "streamingStartedAt (assistantStore e sid m p snap s) sid =
     (if streamingStartedAt snap sid = None then Some (Date_now e)
      else streamingStartedAt (appendMessage sid (assistantChatMessage (Date_now e) m p) s) sid)"
  "streamingOutputTokens (assistantStore e sid m p snap s)
     = streamingOutputTokens (appendMessage sid (assistantChatMessage (Date_now e) m p) s)"
  by (simp_all add: assistantStore_def setStreamingStats_def setSessionStatus_def setStreaming_def)

lemma appendMessage_fields:
  "streaming (appendMessage sid m s) = streaming s"
  "streamingStartedAt (appendMessage sid m s) = streamingStartedAt s"
  "streamingOutputTokens (appendMessage sid m s) = streamingOutputTokens s"
  "pendingPermissions (appendMessage sid m s) = pendingPermissions s"
  by (simp_all add: appendMessage_alt)

lemma appendMessage_messages:
  "(case messages (appendMessage sid m s) sid of None \<Rightarrow> [] | Some ms \<Rightarrow> ms) =
     (if dup_id sid m s then (case messages s sid of None \<Rightarrow> [] | Some ms \<Rightarrow> ms)
      else (case messages s sid of None \<Rightarrow> [] | Some ms \<Rightarrow> ms) @ [m])"
  by (simp add: appendMessage_alt)

lemma assistant_store_untouched:
  assumes "JSON_parse e l = Some (AssistantFrame m p)"
  shows "messages (store (handleMessage e sid l w)) = messages (assistantStore e sid m p (store w) (store w))"
    and "streaming (store (handleMessage e sid l w)) = streaming (assistantStore e sid m p (store w) (store w))"
    and "streamingStartedAt (store (handleMessage e sid l w)) = streamingStartedAt (assistantStore e sid m p (store w) (store w))"
    and "streamingOutputTokens (store (handleMessage e sid l w)) = streamingOutputTokens (assistantStore e sid m p (store w) (store w))"
  by (simp_all add: handleMessage_assistant_outer[OF assms] onStore_simps extractTasksFromBlocks_untouched)

lemma assistant_messages:
  assumes "JSON_parse e l = Some (AssistantFrame m p)"
  shows "messagesOf (handleMessage e sid l w) sid =
           (if truthy (a_id m) \<and> (\<exists>x \<in> set (messagesOf w sid). msg_id x = a_id m)
            then messagesOf w sid
            else messagesOf w sid @ [assistantChatMessage (Date_now e) m p])"
proof -
  have id: "msg_id (assistantChatMessage (Date_now e) m p) = a_id m"
    by (simp add: assistantChatMessage_def)
  show ?thesis
    unfolding messagesOf_def assistant_store_untouched(1)[OF assms] assistantStore_fields(1)
      appendMessage_messages dup_id_def id ..
qed

lemma storedMessages_append:
  "storedMessages (appendMessage sid m s) sid =
     (if truthy (msg_id m) \<and> (\<exists>x \<in> set (storedMessages s sid). msg_id x = msg_id m)
      then storedMessages s sid else storedMessages s sid @ [m])"
  unfolding storedMessages_def appendMessage_messages dup_id_def ..

lemma appendMessage_dup:
  assumes "truthy (msg_id m)" "\<exists>x \<in> set (storedMessages s sid). msg_id x = msg_id m"
  shows "appendMessage sid m s = s"
  using assms unfolding appendMessage_alt dup_id_def storedMessages_def by simp

text \<open>
  Claim C3. \<open>appendMessage\<close> deduplicates by id only when an id is present. Appending a
  message whose non-empty id is the id of a stored message leaves the store as it is, so
  the stored message is retained; appending two messages with one fresh non-empty id
  stores the first only; appending two messages whose ids are empty or absent stores both.
\<close>

theorem appendMessage_dedup:
  "(truthy (msg_id m) \<and> (\<exists>x \<in> set (storedMessages s sid). msg_id x = msg_id m)
      \<longrightarrow> appendMessage sid m s = s)
 \<and> (truthy (msg_id m1) \<and> msg_id m2 = msg_id m1
      \<and> (\<forall>x \<in> set (storedMessages s sid). msg_id x \<noteq> msg_id m1)
      \<longrightarrow> storedMessages (appendMessage sid m2 (appendMessage sid m1 s)) sid = storedMessages s sid @ [m1])
 \<and> (\<not> truthy (msg_id m1) \<and> \<not> truthy (msg_id m2)
      \<longrightarrow> storedMessages (appendMessage sid m2 (appendMessage sid m1 s)) sid = storedMessages s sid @ [m1, m2])"
proof (intro conjI impI)
  assume "truthy (msg_id m) \<and> (\<exists>x \<in> set (storedMessages s sid). msg_id x = msg_id m)"
  then show "appendMessage sid m s = s" by (simp add: appendMessage_dup)
next
  assume a: "truthy (msg_id m1) \<and> msg_id m2 = msg_id m1
      \<and> (\<forall>x \<in> set (storedMessages s sid). msg_id x \<noteq> msg_id m1)"
  then have 1: "storedMessages (appendMessage sid m1 s) sid = storedMessages s sid @ [m1]"
    by (auto simp: storedMessages_append)
  show "storedMessages (appendMessage sid m2 (appendMessage sid m1 s)) sid = storedMessages s sid @ [m1]"
    using a by (simp add: storedMessages_append[of sid m2] 1)
next
  assume a: "\<not> truthy (msg_id m1) \<and> \<not> truthy (msg_id m2)"
  then show "storedMessages (appendMessage sid m2 (appendMessage sid m1 s)) sid = storedMessages s sid @ [m1, m2]"
    by (simp add: storedMessages_append)
qed

lemma messagesOf_stored: "messagesOf w sid = storedMessages (store w) sid"
  by (simp add: messagesOf_def storedMessages_def)

text \<open>
  Claim C1, as amended. A frame line that \<open>JSON.parse\<close> rejects leaves the whole module
  state unchanged, and the handler returns. An \<open>assistant\<close> frame handled right after it
  appends exactly its one message to the session's list, unless the message carries a
  non-empty id that a stored message of the session already has: then the list is
  unchanged.
\<close>

theorem malformed_frame_dropped:
  assumes "JSON_parse e line = None"
  shows "handleMessage e sid line w = w
       \<and> (JSON_parse e' line' = Some (AssistantFrame m p) \<longrightarrow>
            messagesOf (handleMessage e' sid line' (handleMessage e sid line w)) sid =
              (if truthy (a_id m) \<and> (\<exists>x \<in> set (messagesOf w sid). msg_id x = a_id m)
               then messagesOf w sid
               else messagesOf w sid @ [assistantChatMessage (Date_now e') m p]))"
proof (intro conjI impI)
  show dropped: "handleMessage e sid line w = w"
    using assms by (rule handleMessage_malformed)
  assume "JSON_parse e' line' = Some (AssistantFrame m p)"
  then show "messagesOf (handleMessage e' sid line' (handleMessage e sid line w)) sid =
              (if truthy (a_id m) \<and> (\<exists>x \<in> set (messagesOf w sid). msg_id x = a_id m)
               then messagesOf w sid
               else messagesOf w sid @ [assistantChatMessage (Date_now e') m p])"
    unfolding dropped by (rule assistant_messages)
qed

subsection \<open>Result, assistant and stream frames\<close>

lemma updateSession_fields:
  "messages (updateSession sid u s) = messages s"
  "streaming (updateSession sid u s) = streaming s"
  "streamingStartedAt (updateSession sid u s) = streamingStartedAt s"
  "streamingOutputTokens (updateSession sid u s) = streamingOutputTokens s"
  by (simp_all add: updateSession_def split: option.splits)

lemma nextId_store: "store (snd (nextId now w)) = store w" "fst (nextId now w) \<noteq> []"
  by (simp_all add: nextId_def)

lemma result_scratch:
  assumes "JSON_parse e l = Some (ResultFrame r)"
  shows "streaming (store (handleMessage e sid l w)) sid = None"
    and "streamingStartedAt (store (handleMessage e sid l w)) sid = None"
    and "streamingOutputTokens (store (handleMessage e sid l w)) sid = None"
  using assms
  by (simp_all add: handleMessage_def Let_def nextId_def appendMessage_fields
        setSessionStatus_def setStreamingStats_def setStreaming_def split: prod.splits)

lemma assistant_scratch:
  assumes "JSON_parse e l = Some (AssistantFrame m p)"
  shows "streaming (store (handleMessage e sid l w)) sid = None"
    and "streamingStartedAt (store (handleMessage e sid l w)) sid =
           Some (case streamingStartedAt (store w) sid of None \<Rightarrow> Date_now e | Some t \<Rightarrow> t)"
    and "streamingOutputTokens (store (handleMessage e sid l w)) = streamingOutputTokens (store w)"
  by (auto simp: assistant_store_untouched[OF assms] assistantStore_fields appendMessage_fields)

lemma stream_messages:
  assumes "JSON_parse e l = Some (StreamEventFrame ev)"
  shows "messages (store (handleMessage e sid l w)) = messages (store w)"
  using assms
  by (cases ev)
     (simp_all add: handleMessage_def Let_def setStreamingStats_def setStreaming_def split: option.splits)

subsection \<open>Permission frames\<close>



lemma handleMessage_permission:
  assumes "JSON_parse e l = Some (PermissionRequestFrame req)"
  shows "handleMessage e sid l w =
           (if tool_name req \<noteq> [] \<and> perm_input req \<noteq> None
            then extractTasksFromBlocks sid
                   [ToolUse (tool_use_id req) (Some (tool_name req)) (perm_input req)]
                   (onStore (addPermission sid req) w)
            else onStore (addPermission sid req) w)"
  using assms by (simp add: handleMessage_def Let_def onStore_def)





lemma recorded_views:
  "store (recorded sid tid w) = store w"
  "taskCounters (recorded sid tid w) = taskCounters w"
  "tasksOf (recorded sid tid w) sid' = tasksOf w sid'"
  by (simp_all add: recorded_def markProcessed_def getProcessedSet_store tasksOf_def)

lemma single_block_skip:
  assumes "\<not> truthy name \<or> inp = None \<or> (truthy tid \<and> the tid \<in> processed w sid)"
  shows "extractTasksFromBlocks sid [ToolUse tid name inp] w = getProcessedSet sid w"
  using assms
  by (auto simp: extractTasksFromBlocks_def extractBlock_def getProcessedSet_processed)

lemma single_block_act:
  assumes "truthy name" "inp = Some i" "\<not> (truthy tid \<and> the tid \<in> processed w sid)"
  shows "extractTasksFromBlocks sid [ToolUse tid name inp] w =
           (if name = Some ''TodoWrite'' then todoWrite sid i (recorded sid tid w)
            else if name = Some ''TaskCreate'' then taskCreate sid i (recorded sid tid w)
            else if name = Some ''TaskUpdate'' then taskUpdate sid i (recorded sid tid w)
            else recorded sid tid w)"
proof -
  have b: "extractBlock sid (ToolUse tid name inp) (getProcessedSet sid w) =
           (if name = Some ''TodoWrite'' then todoWrite sid i (recorded sid tid w)
            else if name = Some ''TaskCreate'' then taskCreate sid i (recorded sid tid w)
            else if name = Some ''TaskUpdate'' then taskUpdate sid i (recorded sid tid w)
            else recorded sid tid w)"
  proof -
    have c: "(truthy tid \<and> the tid \<in> processed w sid) = False" using assms(3) by simp
    show ?thesis
      unfolding extractBlock_def recorded_def using assms(1,2)
      by (simp add: getProcessedSet_processed Let_def c)
  qed
  show ?thesis by (simp add: extractTasksFromBlocks_def b)
qed


lemma tasksOf_taskCreate:
  "tasksOf (taskCreate sid i w) sid' =
     (if sid' = sid
      then tasksOf w sid @
             [\<lparr>task_id = string_of_nat ((case taskCounters w sid of None \<Rightarrow> 0 | Some c \<Rightarrow> c) + 1),
               subject = (if truthy (in_subject i) then the (in_subject i) else ''Task''),
               description = (if truthy (in_description i) then the (in_description i) else []),
               activeForm = in_activeForm i, status = ''pending'', owner = None, blockedBy = None\<rparr>]
      else tasksOf w sid')"
  by (simp add: taskCreate_def tasksOf_def addTask_def Let_def)



lemma single_block_processed:
  assumes "truthy tid" "truthy name" "inp \<noteq> None"
  shows "the tid \<in> processed (extractTasksFromBlocks sid [ToolUse tid name inp] w) sid"
proof (cases "the tid \<in> processed w sid")
  case True
  then show ?thesis by (rule extractTasksFromBlocks_processed_mono)
next
  case False
  from assms(3) obtain i where i: "inp = Some i" by auto
  have r: "the tid \<in> processed (recorded sid tid w) sid"
    using assms(1) by (simp add: recorded_def processed_markProcessed)
  from False have f: "\<not> (truthy tid \<and> the tid \<in> processed w sid)" by simp
  show ?thesis
    unfolding single_block_act[OF assms(2) i f] using r by (simp add: processed_tools)
qed


lemma tasksOf_getProcessedSet: "tasksOf (getProcessedSet sid w) sid' = tasksOf w sid'"
  by (simp add: tasksOf_def getProcessedSet_store)




subsection \<open>History and the streaming scratch state\<close>

lemma clearScratch_idem: "clearScratch (clearScratch s) = clearScratch s"
  by (simp add: clearScratch_def)

lemma clearScratch_fields:
  "sessions (clearScratch s) = sessions s"
  "messages (clearScratch s) = messages s"
  "pendingPermissions (clearScratch s) = pendingPermissions s"
  "cliConnected (clearScratch s) = cliConnected s"
  "sessionStatus (clearScratch s) = sessionStatus s"
  "sessionTasks (clearScratch s) = sessionTasks s"
  "sessionNames (clearScratch s) = sessionNames s"
  "streaming (clearScratch s) = Map.empty"
  "streamingStartedAt (clearScratch s) = Map.empty"
  "streamingOutputTokens (clearScratch s) = Map.empty"
  by (simp_all add: clearScratch_def)

lemma clearScratch_absorbs:
  "clearScratch (setStreaming sid tx s) = clearScratch s"
  "clearScratch (setStreamingStats sid stats s) = clearScratch s"
  by (simp_all add: clearScratch_def setStreaming_def setStreamingStats_def split: option.splits prod.splits)

lemma dup_id_clearScratch: "dup_id sid m (clearScratch s) = dup_id sid m s"
  by (simp add: dup_id_def clearScratch_def)

lemma clearScratch_appendMessage: "clearScratch (appendMessage sid m s) = appendMessage sid m (clearScratch s)"
  unfolding appendMessage_alt dup_id_clearScratch by (simp add: clearScratch_def)

lemma clearScratch_passes:
  "clearScratch (setMessages sid ms s) = setMessages sid ms (clearScratch s)"
  "clearScratch (addSession session s) = addSession session (clearScratch s)"
  "clearScratch (updateSession sid u s) = updateSession sid u (clearScratch s)"
  "clearScratch (addPermission sid req s) = addPermission sid req (clearScratch s)"
  "clearScratch (removePermission sid rid s) = removePermission sid rid (clearScratch s)"
  "clearScratch (setCliConnected sid v s) = setCliConnected sid v (clearScratch s)"
  "clearScratch (setSessionStatus sid st s) = setSessionStatus sid st (clearScratch s)"
  "clearScratch (setSessionName sid n s) = setSessionName sid n (clearScratch s)"
  by (simp_all add: clearScratch_def setMessages_def addSession_def updateSession_def addPermission_def
        removePermission_def setCliConnected_def setSessionStatus_def setSessionName_def Let_def
      split: option.splits)

lemma beside_clearScratch: "beside_tasks clearScratch"
  by (simp add: beside_tasks_def clearScratch_def)

lemma withoutScratch_simps:
  "store (withoutScratch w) = clearScratch (store w)"
  "taskCounters (withoutScratch w) = taskCounters w"
  "processedToolUseIds (withoutScratch w) = processedToolUseIds w"
  "idCounter (withoutScratch w) = idCounter w"
  by (simp_all add: withoutScratch_def onStore_def)

lemma withoutScratch_eqI:
  assumes "clearScratch (store w) = clearScratch (store w')" "taskCounters w = taskCounters w'"
    "processedToolUseIds w = processedToolUseIds w'" "idCounter w = idCounter w'"
  shows "withoutScratch w = withoutScratch w'"
  using assms by (cases w, cases w') (simp add: withoutScratch_def onStore_def)

lemma withoutScratch_idem: "withoutScratch (withoutScratch w) = withoutScratch w"
  by (simp add: withoutScratch_def onStore_def clearScratch_idem)

lemma extract_withoutScratch:
  "extractTasksFromBlocks sid bs (withoutScratch w) = withoutScratch (extractTasksFromBlocks sid bs w)"
  unfolding withoutScratch_def by (rule extractTasksFromBlocks_onStore[OF beside_clearScratch])

lemma withoutScratch_store_update:
  "withoutScratch (w\<lparr>store := s\<rparr>) = (withoutScratch w)\<lparr>store := clearScratch s\<rparr>"
  by (simp add: withoutScratch_def onStore_def)

lemma nextId_withoutScratch:
  "nextId now (withoutScratch w) = (fst (nextId now w), withoutScratch (snd (nextId now w)))"
  by (simp add: nextId_def withoutScratch_def onStore_def Let_def)

lemma historyLoop_withoutScratch:
  "historyLoop now sid hs (acc, withoutScratch w)
     = (fst (historyLoop now sid hs (acc, w)), withoutScratch (snd (historyLoop now sid hs (acc, w))))"
proof (induction hs arbitrary: acc w)
  case Nil
  show ?case by simp
next
  case (Cons h hs)
  show ?case
  proof (cases h)
    case (HistUser tx ts)
    then show ?thesis
      using Cons.IH by (simp add: nextId_withoutScratch split: prod.splits)
  next
    case (HistAssistant m p)
    then show ?thesis
      using Cons.IH by (simp add: extract_withoutScratch)
  next
    case (HistResult r)
    then show ?thesis
      using Cons.IH by (simp add: nextId_withoutScratch split: prod.splits)
  next
    case HistOther
    then show ?thesis using Cons.IH by simp
  qed
qed

lemmas clear_rules = clearScratch_idem clearScratch_absorbs clearScratch_appendMessage clearScratch_passes
  clearScratch_fields

lemma handle_assistant_clear:
  assumes "JSON_parse e l = Some (AssistantFrame m p)"
  shows "withoutScratch (handleMessage e sid l w) = withoutScratch (handleMessage e sid l (withoutScratch w))"
proof -
  have c: "clearScratch (assistantStore e sid m p snap s)
      = setSessionStatus sid (Some Running)
          (appendMessage sid (assistantChatMessage (Date_now e) m p) (clearScratch s))" for snap s
    by (simp add: assistantStore_def clear_rules)
  show ?thesis
    by (rule withoutScratch_eqI)
       (simp_all add: handleMessage_assistant[OF assms] onStore_simps c extract_withoutScratch
          withoutScratch_simps clear_rules)
qed

lemma handle_stream_clear:
  assumes "JSON_parse e l = Some (StreamEventFrame ev)"
  shows "withoutScratch (handleMessage e sid l w) = withoutScratch w"
  using assms
  by (cases ev)
     (simp_all add: handleMessage_def Let_def withoutScratch_store_update clear_rules
        withoutScratch_def onStore_def split: option.splits)

lemma handle_result_clear:
  assumes "JSON_parse e l = Some (ResultFrame r)"
  shows "withoutScratch (handleMessage e sid l w) = withoutScratch (handleMessage e sid l (withoutScratch w))"
  using assms
  by (simp add: handleMessage_def Let_def nextId_def withoutScratch_def onStore_def clear_rules
      split: prod.splits)

lemma handle_permission_clear:
  assumes "JSON_parse e l = Some (PermissionRequestFrame req)"
  shows "withoutScratch (handleMessage e sid l w) = withoutScratch (handleMessage e sid l (withoutScratch w))"
proof -
  have o: "onStore (addPermission sid req) (withoutScratch w) = withoutScratch (onStore (addPermission sid req) w)"
    by (simp add: withoutScratch_def onStore_def clear_rules)
  show ?thesis
    by (simp add: handleMessage_permission[OF assms] o extract_withoutScratch withoutScratch_idem)
qed

lemma handle_history_clear:
  assumes "JSON_parse e l = Some (MessageHistory hs)"
  shows "withoutScratch (handleMessage e sid l w) = withoutScratch (handleMessage e sid l (withoutScratch w))"
  using assms
  by (simp add: handleMessage_def Let_def historyLoop_withoutScratch withoutScratch_store_update
        withoutScratch_idem withoutScratch_simps clear_rules split: prod.splits)

lemma handle_init_clear:
  assumes "JSON_parse e l = Some (SessionInit x)"
  shows "withoutScratch (handleMessage e sid l w) = withoutScratch (handleMessage e sid l (withoutScratch w))"
  using assms
  by (simp add: handleMessage_def Let_def nextId_def withoutScratch_def onStore_def clear_rules
      split: prod.splits)

lemma handle_update_clear:
  assumes "JSON_parse e l = Some (SessionUpdate x)"
  shows "withoutScratch (handleMessage e sid l w) = withoutScratch (handleMessage e sid l (withoutScratch w))"
  using assms
  by (simp add: handleMessage_def Let_def nextId_def withoutScratch_def onStore_def clear_rules
      split: prod.splits)

lemma handle_cancel_clear:
  assumes "JSON_parse e l = Some (PermissionCancelled x)"
  shows "withoutScratch (handleMessage e sid l w) = withoutScratch (handleMessage e sid l (withoutScratch w))"
  using assms
  by (simp add: handleMessage_def Let_def nextId_def withoutScratch_def onStore_def clear_rules
      split: prod.splits)

lemma handle_progress_clear:
  assumes "JSON_parse e l = Some (ToolProgress)"
  shows "withoutScratch (handleMessage e sid l w) = withoutScratch (handleMessage e sid l (withoutScratch w))"
  using assms
  by (simp add: handleMessage_def Let_def nextId_def withoutScratch_def onStore_def clear_rules
      split: prod.splits)

lemma handle_summary_clear:
  assumes "JSON_parse e l = Some (ToolUseSummary)"
  shows "withoutScratch (handleMessage e sid l w) = withoutScratch (handleMessage e sid l (withoutScratch w))"
  using assms
  by (simp add: handleMessage_def Let_def nextId_def withoutScratch_def onStore_def clear_rules
      split: prod.splits)

lemma handle_status_clear:
  assumes "JSON_parse e l = Some (StatusChange x)"
  shows "withoutScratch (handleMessage e sid l w) = withoutScratch (handleMessage e sid l (withoutScratch w))"
  using assms
  by (simp add: handleMessage_def Let_def nextId_def withoutScratch_def onStore_def clear_rules
      split: prod.splits)

lemma handle_auth_clear:
  assumes "JSON_parse e l = Some (AuthStatus x)"
  shows "withoutScratch (handleMessage e sid l w) = withoutScratch (handleMessage e sid l (withoutScratch w))"
  using assms
  by (simp add: handleMessage_def Let_def nextId_def withoutScratch_def onStore_def clear_rules
      split: prod.splits)

lemma handle_error_clear:
  assumes "JSON_parse e l = Some (ErrorFrame x)"
  shows "withoutScratch (handleMessage e sid l w) = withoutScratch (handleMessage e sid l (withoutScratch w))"
  using assms
  by (simp add: handleMessage_def Let_def nextId_def withoutScratch_def onStore_def clear_rules
      split: prod.splits)

lemma handle_clidown_clear:
  assumes "JSON_parse e l = Some (CliDisconnected)"
  shows "withoutScratch (handleMessage e sid l w) = withoutScratch (handleMessage e sid l (withoutScratch w))"
  using assms
  by (simp add: handleMessage_def Let_def nextId_def withoutScratch_def onStore_def clear_rules
      split: prod.splits)

lemma handle_cliup_clear:
  assumes "JSON_parse e l = Some (CliConnected)"
  shows "withoutScratch (handleMessage e sid l w) = withoutScratch (handleMessage e sid l (withoutScratch w))"
  using assms
  by (simp add: handleMessage_def Let_def nextId_def withoutScratch_def onStore_def clear_rules
      split: prod.splits)

lemma handle_unknown_clear:
  assumes "JSON_parse e l = Some (UnknownFrame)"
  shows "withoutScratch (handleMessage e sid l w) = withoutScratch (handleMessage e sid l (withoutScratch w))"
  using assms
  by (simp add: handleMessage_def Let_def nextId_def withoutScratch_def onStore_def clear_rules
      split: prod.splits)

lemma handle_clear:
  "withoutScratch (handleMessage e sid l w) = withoutScratch (handleMessage e sid l (withoutScratch w))"
proof (cases "JSON_parse e l")
  case None
  then show ?thesis by (simp add: handleMessage_malformed withoutScratch_idem)
next
  case (Some f)
  show ?thesis
  proof (cases f)
    case (AssistantFrame m p)
    with Some show ?thesis by (intro handle_assistant_clear) simp
  next
    case (StreamEventFrame ev)
    from Some StreamEventFrame have p: "JSON_parse e l = Some (StreamEventFrame ev)" by simp
    show ?thesis by (simp add: handle_stream_clear[OF p] withoutScratch_idem)
  next
    case (ResultFrame r)
    with Some show ?thesis by (intro handle_result_clear) simp
  next
    case (PermissionRequestFrame r)
    with Some show ?thesis by (intro handle_permission_clear) simp
  next
    case (MessageHistory hs)
    with Some show ?thesis by (intro handle_history_clear) simp
  next
    case (SessionInit x)
    with Some show ?thesis by (intro handle_init_clear) simp
  next
    case (SessionUpdate x)
    with Some show ?thesis by (intro handle_update_clear) simp
  next
    case (PermissionCancelled x)
    with Some show ?thesis by (intro handle_cancel_clear) simp
  next
    case ToolProgress
    with Some show ?thesis by (intro handle_progress_clear) simp
  next
    case ToolUseSummary
    with Some show ?thesis by (intro handle_summary_clear) simp
  next
    case (StatusChange x)
    with Some show ?thesis by (intro handle_status_clear) simp
  next
    case (AuthStatus x)
    with Some show ?thesis by (intro handle_auth_clear) simp
  next
    case (ErrorFrame x)
    with Some show ?thesis by (intro handle_error_clear) simp
  next
    case CliDisconnected
    with Some show ?thesis by (intro handle_clidown_clear) simp
  next
    case CliConnected
    with Some show ?thesis by (intro handle_cliup_clear) simp
  next
    case UnknownFrame
    with Some show ?thesis by (intro handle_unknown_clear) simp
  qed
qed

lemma handle_clear_cong:
  assumes "withoutScratch w = withoutScratch w'"
  shows "withoutScratch (handleMessage e sid l w) = withoutScratch (handleMessage e sid l w')"
proof -
  have "withoutScratch (handleMessage e sid l w) = withoutScratch (handleMessage e sid l (withoutScratch w))"
    by (rule handle_clear)
  also have "\<dots> = withoutScratch (handleMessage e sid l (withoutScratch w'))"
    by (simp only: assms)
  also have "\<dots> = withoutScratch (handleMessage e sid l w')"
    by (rule handle_clear[symmetric])
  finally show ?thesis .
qed

lemma isStreamEvent_iff: "isStreamEvent f \<longleftrightarrow> (\<exists>ev. f = Some (StreamEventFrame ev))"
  by (auto simp: isStreamEvent_def split: option.splits BrowserIncomingMessage.splits)

lemma handleAll_clear:
  assumes "withoutScratch w = withoutScratch w'"
  shows "withoutScratch (handleAll sid fs w)
       = withoutScratch (handleAll sid (filter (\<lambda>f. \<not> isStreamEvent (JSON_parse (fst f) (snd f))) fs) w')"
  using assms
proof (induction fs arbitrary: w w')
  case Nil
  then show ?case by simp
next
  case (Cons f fs)
  show ?case
  proof (cases "isStreamEvent (JSON_parse (fst f) (snd f))")
    case True
    then obtain ev where "JSON_parse (fst f) (snd f) = Some (StreamEventFrame ev)"
      by (auto simp: isStreamEvent_iff)
    from handle_stream_clear[OF this] Cons.prems
    have "withoutScratch (handleMessage (fst f) sid (snd f) w) = withoutScratch w'" by simp
    from Cons.IH[OF this] True show ?thesis by simp
  next
    case False
    from Cons.IH[OF handle_clear_cong[OF Cons.prems]] False show ?thesis by simp
  qed
qed

lemma messages_withoutScratch: "messages (store (withoutScratch w)) = messages (store w)"
  by (simp add: withoutScratch_simps clearScratch_fields)

lemma withoutScratch_scratch:
  "withoutScratch (onStore (\<lambda>s. s\<lparr>streaming := a, streamingStartedAt := b, streamingOutputTokens := c\<rparr>) w)
     = withoutScratch w"
  by (simp add: withoutScratch_def onStore_def clearScratch_def)

lemma history_beside_scratch:
  "messages (store (handleAll sid fs
       (onStore (\<lambda>s. s\<lparr>streaming := a, streamingStartedAt := b, streamingOutputTokens := c\<rparr>) w)))
   = messages (store (handleAll sid (filter (\<lambda>f. \<not> isStreamEvent (JSON_parse (fst f) (snd f))) fs) w))"
proof -
  have "withoutScratch (handleAll sid fs
       (onStore (\<lambda>s. s\<lparr>streaming := a, streamingStartedAt := b, streamingOutputTokens := c\<rparr>) w))
     = withoutScratch (handleAll sid (filter (\<lambda>f. \<not> isStreamEvent (JSON_parse (fst f) (snd f))) fs) w)"
    by (rule handleAll_clear[OF withoutScratch_scratch])
  then have "messages (store (withoutScratch (handleAll sid fs
       (onStore (\<lambda>s. s\<lparr>streaming := a, streamingStartedAt := b, streamingOutputTokens := c\<rparr>) w))))
     = messages (store (withoutScratch
         (handleAll sid (filter (\<lambda>f. \<not> isStreamEvent (JSON_parse (fst f) (snd f))) fs) w)))"
    by simp
  then show ?thesis by (simp only: messages_withoutScratch)
qed

lemma result_ok_messages:
  assumes "JSON_parse e l = Some (ResultFrame r)" "\<not> is_error r"
  shows "messages (store (handleMessage e sid l w)) = messages (store w)"
  using assms
  by (simp add: handleMessage_def Let_def updateSession_fields setSessionStatus_def
        setStreamingStats_def setStreaming_def)

text \<open>
  Claim C8, as amended. After a \<open>result\<close> frame the session's in-progress text, start
  timestamp and output-token counter are all absent, whatever they held. After an
  \<open>assistant\<close> frame the in-progress text is absent; the start timestamp is the one the
  session had, or the current time where it had none, and the output-token counters are
  unchanged. A \<open>stream_event\<close> frame leaves the message lists unchanged, and the scratch
  state never reaches them: after any sequence of frames on a session's socket, from any
  scratch state, the message lists are those that the sequence without its
  \<open>stream_event\<close> frames gives from the state with any other scratch state.
\<close>

theorem scratch_state_on_finalize:
  "(JSON_parse e l = Some (ResultFrame r) \<longrightarrow>
      streaming (store (handleMessage e sid l w)) sid = None
    \<and> streamingStartedAt (store (handleMessage e sid l w)) sid = None
    \<and> streamingOutputTokens (store (handleMessage e sid l w)) sid = None)
 \<and> (JSON_parse e l = Some (AssistantFrame m p) \<longrightarrow>
      streaming (store (handleMessage e sid l w)) sid = None
    \<and> streamingStartedAt (store (handleMessage e sid l w)) sid =
        Some (case streamingStartedAt (store w) sid of None \<Rightarrow> Date_now e | Some t \<Rightarrow> t)
    \<and> streamingOutputTokens (store (handleMessage e sid l w)) = streamingOutputTokens (store w))
 \<and> (JSON_parse e l = Some (StreamEventFrame ev) \<longrightarrow>
      messages (store (handleMessage e sid l w)) = messages (store w))
 \<and> messages (store (handleAll sid fs
       (onStore (\<lambda>s. s\<lparr>streaming := a, streamingStartedAt := b, streamingOutputTokens := c\<rparr>) w)))
     = messages (store (handleAll sid
         (filter (\<lambda>f. \<not> isStreamEvent (JSON_parse (fst f) (snd f))) fs) w))"
proof (intro conjI impI)
  assume f: "JSON_parse e l = Some (ResultFrame r)"
  show "streaming (store (handleMessage e sid l w)) sid = None"
    by (rule result_scratch(1)[OF f])
  show "streamingStartedAt (store (handleMessage e sid l w)) sid = None"
    by (rule result_scratch(2)[OF f])
  show "streamingOutputTokens (store (handleMessage e sid l w)) sid = None"
    by (rule result_scratch(3)[OF f])
next
  assume f: "JSON_parse e l = Some (AssistantFrame m p)"
  show "streaming (store (handleMessage e sid l w)) sid = None"
    by (rule assistant_scratch(1)[OF f])
  show "streamingStartedAt (store (handleMessage e sid l w)) sid =
        Some (case streamingStartedAt (store w) sid of None \<Rightarrow> Date_now e | Some t \<Rightarrow> t)"
    by (rule assistant_scratch(2)[OF f])
  show "streamingOutputTokens (store (handleMessage e sid l w)) = streamingOutputTokens (store w)"
    by (rule assistant_scratch(3)[OF f])
next
  assume f: "JSON_parse e l = Some (StreamEventFrame ev)"
  show "messages (store (handleMessage e sid l w)) = messages (store w)"
    by (rule stream_messages[OF f])
next
  show "messages (store (handleAll sid fs
       (onStore (\<lambda>s. s\<lparr>streaming := a, streamingStartedAt := b, streamingOutputTokens := c\<rparr>) w)))
     = messages (store (handleAll sid
         (filter (\<lambda>f. \<not> isStreamEvent (JSON_parse (fst f) (snd f))) fs) w))"
    by (rule history_beside_scratch)
qed

subsection \<open>Task derivation by invocation id\<close>

lemma tasksOf_cong: "sessionTasks (store w') = sessionTasks (store w) \<Longrightarrow> tasksOf w' sid = tasksOf w sid"
  by (simp add: tasksOf_def)

text \<open>
  While the module keeps the session's processed ids: once a non-empty invocation id is
  among them, a tool-use block with that id contributes nothing, wherever it stands among
  the blocks of a frame; and of two \<open>assistant\<close> frames that each carry one \<open>TaskCreate\<close>
  block with the same fresh id, the first adds one task and the second leaves the task
  list and the task counters as the first left them.
\<close>

lemma same_id_skipped_while_recorded:
  assumes "x \<noteq> []"
  shows "(x \<in> processed w sid \<longrightarrow>
            extractTasksFromBlocks sid (pre @ [ToolUse (Some x) name inp] @ post) w
              = extractTasksFromBlocks sid (pre @ post) w)
       \<and> (x \<notin> processed w sid
          \<and> JSON_parse e1 l1 = Some (AssistantFrame m1 p1)
          \<and> a_content m1 = [ToolUse (Some x) (Some ''TaskCreate'') (Some i1)]
          \<and> JSON_parse e2 l2 = Some (AssistantFrame m2 p2)
          \<and> a_content m2 = [ToolUse (Some x) (Some ''TaskCreate'') (Some i2)]
          \<longrightarrow> length (tasksOf (handleMessage e1 sid l1 w) sid) = length (tasksOf w sid) + 1
            \<and> tasksOf (handleMessage e2 sid l2 (handleMessage e1 sid l1 w)) sid
                = tasksOf (handleMessage e1 sid l1 w) sid
            \<and> taskCounters (handleMessage e2 sid l2 (handleMessage e1 sid l1 w))
                = taskCounters (handleMessage e1 sid l1 w))"
proof (intro conjI impI)
  assume "x \<in> processed w sid"
  then show "extractTasksFromBlocks sid (pre @ [ToolUse (Some x) name inp] @ post) w
              = extractTasksFromBlocks sid (pre @ post) w"
    by (rule extract_skip_processed[OF assms])
next
  assume a: "x \<notin> processed w sid
          \<and> JSON_parse e1 l1 = Some (AssistantFrame m1 p1)
          \<and> a_content m1 = [ToolUse (Some x) (Some ''TaskCreate'') (Some i1)]
          \<and> JSON_parse e2 l2 = Some (AssistantFrame m2 p2)
          \<and> a_content m2 = [ToolUse (Some x) (Some ''TaskCreate'') (Some i2)]"
  let ?w1 = "handleMessage e1 sid l1 w"
  let ?b1 = "ToolUse (Some x) (Some ''TaskCreate'') (Some i1)"
  let ?b2 = "ToolUse (Some x) (Some ''TaskCreate'') (Some i2)"
  from a have f1: "JSON_parse e1 l1 = Some (AssistantFrame m1 p1)" and c1: "a_content m1 = [?b1]"
    and f2: "JSON_parse e2 l2 = Some (AssistantFrame m2 p2)" and c2: "a_content m2 = [?b2]"
    and fresh: "x \<notin> processed w sid" by simp_all
  have t1: "tasksOf ?w1 sid = tasksOf (extractTasksFromBlocks sid [?b1] w) sid"
    by (rule tasksOf_cong) (simp add: assistant_tasks(1)[OF f1] c1)
  show "length (tasksOf ?w1 sid) = length (tasksOf w sid) + 1"
    unfolding t1 taskCreate_fresh(1)[OF assms fresh] by simp
  have "x \<in> processed (extractTasksFromBlocks sid [?b1] w) sid"
    by (rule taskCreate_fresh(2)[OF assms fresh])
  then have p1: "x \<in> processed ?w1 sid"
    by (simp add: assistant_tasks(3)[OF f1] c1)
  have skip: "extractTasksFromBlocks sid [?b2] ?w1 = extractTasksFromBlocks sid [] ?w1"
    using extract_skip_processed[OF assms p1, of "[]" "Some ''TaskCreate''" "Some i2" "[]"] by simp
  show "tasksOf (handleMessage e2 sid l2 ?w1) sid = tasksOf ?w1 sid"
    by (rule tasksOf_cong)
       (simp add: assistant_tasks(1)[OF f2] c2 skip extract_nil getProcessedSet_store)
  show "taskCounters (handleMessage e2 sid l2 ?w1) = taskCounters ?w1"
    by (simp add: assistant_tasks(2)[OF f2] c2 skip extract_nil getProcessedSet_store)
qed

lemma string_of_nat_1: "string_of_nat (Suc 0) = ''1''"
  by code_simp

lemma sample_parse:
  "JSON_parse sampleEnv ''{not json'' = None"
  "JSON_parse sampleEnv ''assistant m1'' = Some (AssistantFrame helloPayload None)"
  "JSON_parse sampleEnv ''assistant m2 creates a task'' = Some (AssistantFrame (createPayload ''m2'') None)"
  "JSON_parse sampleEnv ''assistant m3 creates a task'' = Some (AssistantFrame (createPayload ''m3'') None)"
  "JSON_parse sampleEnv ''result'' = Some (ResultFrame okResult)"
  "JSON_parse sampleEnv ''stream delta'' = Some (StreamEventFrame (Some textDelta))"
  "JSON_parse sampleEnv ''permission r1'' = Some (PermissionRequestFrame bashRequest)"
  "JSON_parse sampleEnv ''cancel r1'' = Some (PermissionCancelled ''r1'')"
  "JSON_parse sampleEnv ''permission r2'' = Some (PermissionRequestFrame editRequest)"
  "JSON_parse sampleEnv ''permission r3'' = Some (PermissionRequestFrame taskRequest)"
  "JSON_parse sampleEnv ''history m2'' = Some (MessageHistory [HistAssistant (createPayload ''m2'') None])"
  by (simp_all add: sampleEnv_def sampleParse_def)

lemma messagesOf_empty: "messagesOf emptyWs sid = []"
  by (simp add: messagesOf_def emptyWs_def emptyStore_def)

text \<open>A line that does not parse, then the frame \<open>m1\<close>, on the empty state.\<close>

theorem malformed_frame_dropped_witness:
  "JSON_parse sampleEnv ''{not json'' = None
   \<and> handleMessage sampleEnv ''s1'' ''{not json'' emptyWs = emptyWs
   \<and> messagesOf (handleMessage sampleEnv ''s1'' ''assistant m1''
        (handleMessage sampleEnv ''s1'' ''{not json'' emptyWs)) ''s1''
      = [assistantChatMessage 1000 helloPayload None]"
proof -
  note t = malformed_frame_dropped[OF sample_parse(1), of "''s1''" emptyWs sampleEnv "''assistant m1''"
      helloPayload None]
  have n: "Date_now sampleEnv = 1000" by (simp add: sampleEnv_def)
  from t have a: "handleMessage sampleEnv ''s1'' ''{not json'' emptyWs = emptyWs" by blast
  from t[THEN conjunct2, THEN mp, OF sample_parse(2)]
  have b: "messagesOf (handleMessage sampleEnv ''s1'' ''assistant m1''
        (handleMessage sampleEnv ''s1'' ''{not json'' emptyWs)) ''s1''
      = [assistantChatMessage 1000 helloPayload None]"
    by (simp add: messagesOf_empty n)
  from a b sample_parse(1) show ?thesis by blast
qed

text \<open>
  The claim as stated fails where the assistant frame repeats a stored message id: after
  the frame \<open>m1\<close>, a line that does not parse followed by \<open>m1\<close> again appends nothing, and
  the session still holds one message.
\<close>

theorem malformed_then_assistant_counterexample:
  "JSON_parse sampleEnv ''{not json'' = None
   \<and> JSON_parse sampleEnv ''assistant m1'' = Some (AssistantFrame helloPayload None)
   \<and> length (messagesOf (handleMessage sampleEnv ''s1'' ''assistant m1'' emptyWs) ''s1'') = 1
   \<and> length (messagesOf
        (handleMessage sampleEnv ''s1'' ''assistant m1''
          (handleMessage sampleEnv ''s1'' ''{not json''
            (handleMessage sampleEnv ''s1'' ''assistant m1'' emptyWs))) ''s1'') = 1"
proof -
  let ?w1 = "handleMessage sampleEnv ''s1'' ''assistant m1'' emptyWs"
  have m1: "messagesOf ?w1 ''s1'' = [assistantChatMessage (Date_now sampleEnv) helloPayload None]"
    by (simp add: assistant_messages[OF sample_parse(2)] messagesOf_empty)
  have d: "handleMessage sampleEnv ''s1'' ''{not json'' ?w1 = ?w1"
    by (rule handleMessage_malformed[OF sample_parse(1)])
  have m2: "messagesOf (handleMessage sampleEnv ''s1'' ''assistant m1'' ?w1) ''s1'' = messagesOf ?w1 ''s1''"
    by (simp add: assistant_messages[OF sample_parse(2)] m1)
       (simp add: assistantChatMessage_def helloPayload_def truthy_def)
  show ?thesis unfolding d m2 using m1 sample_parse(1,2) by simp
qed

text \<open>The store's tests: two messages with the id \<open>dup-1\<close>, and two without an id.\<close>

theorem appendMessage_dedup_witness:
  "storedMessages (appendMessage ''s1'' (userMessage (Some ''dup-1'') ''duplicate'')
      (appendMessage ''s1'' (userMessage (Some ''dup-1'') ''first'') emptyStore)) ''s1''
     = [userMessage (Some ''dup-1'') ''first'']
 \<and> storedMessages (appendMessage ''s1'' (userMessage (Some []) ''b'')
      (appendMessage ''s1'' (userMessage None ''a'') emptyStore)) ''s1''
     = [userMessage None ''a'', userMessage (Some []) ''b'']"
proof -
  have e: "storedMessages emptyStore ''s1'' = []"
    by (simp add: storedMessages_def emptyStore_def)
  have i: "msg_id (userMessage x y) = x" for x y by (simp add: userMessage_def)
  note t = appendMessage_dedup[of "userMessage (Some ''dup-1'') ''first''" emptyStore "''s1''"
      "userMessage (Some ''dup-1'') ''first''" "userMessage (Some ''dup-1'') ''duplicate''"]
  note u = appendMessage_dedup[of "userMessage (Some ''dup-1'') ''first''" emptyStore "''s1''"
      "userMessage None ''a''" "userMessage (Some []) ''b''"]
  from t have 1: "storedMessages (appendMessage ''s1'' (userMessage (Some ''dup-1'') ''duplicate'')
      (appendMessage ''s1'' (userMessage (Some ''dup-1'') ''first'') emptyStore)) ''s1''
     = [userMessage (Some ''dup-1'') ''first'']"
    by (simp add: e i truthy_def)
  from u have 2: "storedMessages (appendMessage ''s1'' (userMessage (Some []) ''b'')
      (appendMessage ''s1'' (userMessage None ''a'') emptyStore)) ''s1''
     = [userMessage None ''a'', userMessage (Some []) ''b'']"
    by (simp add: e i truthy_def)
  from 1 2 show ?thesis by blast
qed

text \<open>A \<open>result\<close> frame and a text delta, on a session in mid-stream; and the history after
  a delta, the frame \<open>m1\<close> and a \<open>result\<close> frame on that session: the one message of
  \<open>m1\<close>.\<close>

theorem scratch_state_on_finalize_witness:
  "JSON_parse sampleEnv ''result'' = Some (ResultFrame okResult)
   \<and> streaming (store streamingWs) ''s1'' = Some ''partial''
   \<and> streaming (store (handleMessage sampleEnv ''s1'' ''result'' streamingWs)) ''s1'' = None
   \<and> streamingStartedAt (store (handleMessage sampleEnv ''s1'' ''result'' streamingWs)) ''s1'' = None
   \<and> streamingOutputTokens (store (handleMessage sampleEnv ''s1'' ''result'' streamingWs)) ''s1'' = None
   \<and> JSON_parse sampleEnv ''stream delta'' = Some (StreamEventFrame (Some textDelta))
   \<and> messages (store (handleMessage sampleEnv ''s1'' ''stream delta'' streamingWs)) = messages (store streamingWs)
   \<and> messagesOf (handleAll ''s1''
         [(sampleEnv, ''stream delta''), (sampleEnv, ''assistant m1''), (sampleEnv, ''result'')]
         streamingWs) ''s1''
       = [assistantChatMessage 1000 helloPayload None]"
proof -
  let ?fs = "[(sampleEnv, ''stream delta''), (sampleEnv, ''assistant m1''), (sampleEnv, ''result'')]"
  note r = scratch_state_on_finalize[where e=sampleEnv and l="''result''" and r=okResult and sid="''s1''"
      and w=streamingWs, THEN conjunct1, THEN mp, OF sample_parse(5)]
  note s = scratch_state_on_finalize[where e=sampleEnv and l="''stream delta''" and sid="''s1''"
      and w=streamingWs and ev="Some textDelta",
      THEN conjunct2, THEN conjunct2, THEN conjunct1, THEN mp, OF sample_parse(6)]
  have p: "streaming (store streamingWs) ''s1'' = Some ''partial''"
    by (simp add: streamingWs_def)
  have sw: "streamingWs = onStore (\<lambda>s. s\<lparr>streaming := [''s1'' \<mapsto> ''partial''],
      streamingStartedAt := [''s1'' \<mapsto> 5], streamingOutputTokens := [''s1'' \<mapsto> 42]\<rparr>) emptyWs"
    by (simp add: streamingWs_def onStore_def emptyWs_def)
  have fl: "filter (\<lambda>f. \<not> isStreamEvent (JSON_parse (fst f) (snd f))) ?fs
      = [(sampleEnv, ''assistant m1''), (sampleEnv, ''result'')]"
    by (simp add: isStreamEvent_def sample_parse)
  have h: "messages (store (handleAll ''s1'' ?fs streamingWs))
      = messages (store (handleAll ''s1'' (filter (\<lambda>f. \<not> isStreamEvent (JSON_parse (fst f) (snd f))) ?fs) emptyWs))"
    unfolding sw
    by (rule scratch_state_on_finalize[THEN conjunct2, THEN conjunct2, THEN conjunct2])
  have n: "Date_now sampleEnv = 1000" "\<not> is_error okResult"
    by (simp_all add: sampleEnv_def okResult_def)
  have "messagesOf (handleAll ''s1'' ?fs streamingWs) ''s1''
      = messagesOf (handleMessage sampleEnv ''s1'' ''assistant m1'' emptyWs) ''s1''"
    unfolding messagesOf_def h fl
    by (simp add: result_ok_messages[OF sample_parse(5) n(2)])
  also have "\<dots> = [assistantChatMessage 1000 helloPayload None]"
    by (simp add: assistant_messages[OF sample_parse(2)] messagesOf_empty n(1))
  finally have m: "messagesOf (handleAll ''s1'' ?fs streamingWs) ''s1''
      = [assistantChatMessage 1000 helloPayload None]" .
  show ?thesis
    by (rule conjI[OF sample_parse(5) conjI[OF p conjI[OF r[THEN conjunct1]
          conjI[OF r[THEN conjunct2, THEN conjunct1] conjI[OF r[THEN conjunct2, THEN conjunct2]
          conjI[OF sample_parse(6) conjI[OF s m]]]]]]])
qed

text \<open>
  The claim as stated fails for the \<open>assistant\<close> frame: on a session in mid-stream the
  start timestamp 5 and the token count 42 are still there after it, and on an empty
  state the frame sets the start timestamp.
\<close>

theorem assistant_keeps_stats_counterexample:
  "JSON_parse sampleEnv ''assistant m1'' = Some (AssistantFrame helloPayload None)
   \<and> streamingStartedAt (store (handleMessage sampleEnv ''s1'' ''assistant m1'' streamingWs)) ''s1'' = Some 5
   \<and> streamingOutputTokens (store (handleMessage sampleEnv ''s1'' ''assistant m1'' streamingWs)) ''s1'' = Some 42
   \<and> streamingStartedAt (store (handleMessage sampleEnv ''s1'' ''assistant m1'' emptyWs)) ''s1'' = Some 1000"
proof -
  have a: "streamingStartedAt (store streamingWs) ''s1'' = Some 5"
    "streamingOutputTokens (store streamingWs) ''s1'' = Some 42"
    "streamingStartedAt (store emptyWs) ''s1'' = None" "Date_now sampleEnv = 1000"
    by (simp_all add: streamingWs_def emptyWs_def emptyStore_def sampleEnv_def)
  show ?thesis
    using sample_parse(2) by (simp add: assistant_scratch[OF sample_parse(2)] a)
qed


subsection \<open>Replay after a disconnect\<close>

lemma disconnectSession_views:
  "store (disconnectSession sid w) = store w"
  "tasksOf (disconnectSession sid w) sid' = tasksOf w sid'"
  "processed (disconnectSession sid w) sid = {}"
  "taskCounters (disconnectSession sid w) sid = None"
  by (simp_all add: disconnectSession_def tasksOf_def processed_def)

lemma history_one_assistant:
  assumes "JSON_parse e l = Some (MessageHistory [HistAssistant m p])" "a_content m \<noteq> []"
  shows "tasksOf (handleMessage e sid l w) sid' = tasksOf (extractTasksFromBlocks sid (a_content m) w) sid'"
    and "processed (handleMessage e sid l w) = processed (extractTasksFromBlocks sid (a_content m) w)"
  using assms
  by (simp_all add: handleMessage_def Let_def tasksOf_def setMessages_def processed_def fun_eq_iff)

text \<open>
  Claim C2. The claim fails on the code. An \<open>assistant\<close> frame with a \<open>TaskCreate\<close> block of
  invocation id \<open>toolu_1\<close> adds the task. When the history is replayed to the same socket,
  the frame that carries the block again adds nothing. But \<open>disconnectSession\<close>, called
  when the user selects another session, deletes the session's processed ids and its task
  counter and leaves its task list; the history replayed after the session is selected
  again then adds the task a second time, under the same task id.
\<close>

theorem replay_after_disconnect_duplicates_task:
  "tasksOf (handleMessage sampleEnv ''s1'' ''assistant m2 creates a task'' emptyWs) ''s1'' = [fixBugTask]
   \<and> tasksOf (handleMessage sampleEnv ''s1'' ''history m2''
        (handleMessage sampleEnv ''s1'' ''assistant m2 creates a task'' emptyWs)) ''s1'' = [fixBugTask]
   \<and> tasksOf (handleMessage sampleEnv ''s1'' ''history m2''
        (disconnectSession ''s1''
          (handleMessage sampleEnv ''s1'' ''assistant m2 creates a task'' emptyWs))) ''s1''
      = [fixBugTask, fixBugTask]"
proof -
  let ?i = "noInput\<lparr>in_subject := Some ''Fix bug''\<rparr>"
  let ?b = "ToolUse (Some ''toolu_1'') (Some ''TaskCreate'') (Some ?i)"
  let ?w1 = "handleMessage sampleEnv ''s1'' ''assistant m2 creates a task'' emptyWs"
  have c: "a_content (createPayload ''m2'') = [?b]" by (simp add: createPayload_def)
  have ne: "a_content (createPayload ''m2'') \<noteq> []" by (simp add: c)
  have tr: "truthy (Some ''TaskCreate'')" by (simp add: truthy_def)
  have task: "\<lparr>task_id = string_of_nat (0 + 1),
               subject = (if truthy (in_subject ?i) then the (in_subject ?i) else ''Task''),
               description = (if truthy (in_description ?i) then the (in_description ?i) else []),
               activeForm = in_activeForm ?i, status = ''pending'', owner = None, blockedBy = None\<rparr>
             = fixBugTask"
    by (simp add: fixBugTask_def noInput_def truthy_def string_of_nat_1)
  have create: "tasksOf (extractTasksFromBlocks ''s1'' [?b] w) ''s1'' = tasksOf w ''s1'' @ [fixBugTask]"
    if "''toolu_1'' \<notin> processed w ''s1''" "taskCounters w ''s1'' = None" for w
  proof -
    from that(1) have f: "\<not> (truthy (Some ''toolu_1'') \<and> the (Some ''toolu_1'') \<in> processed w ''s1'')"
      by simp
    show ?thesis
      unfolding single_block_act[OF tr refl f]
      by (simp add: tasksOf_taskCreate recorded_views that(2) task[simplified])
  qed
  have e0: "tasksOf emptyWs ''s1'' = []" "''toolu_1'' \<notin> processed emptyWs ''s1''"
    "taskCounters emptyWs ''s1'' = None"
    by (simp_all add: tasksOf_def emptyWs_def emptyStore_def processed_def)
  have "tasksOf ?w1 ''s1'' = tasksOf (extractTasksFromBlocks ''s1'' [?b] emptyWs) ''s1''"
    by (rule tasksOf_cong) (simp add: assistant_tasks(1)[OF sample_parse(3)] c)
  then have t1: "tasksOf ?w1 ''s1'' = [fixBugTask]"
    by (simp add: create[OF e0(2,3)] e0(1))
  have p1: "''toolu_1'' \<in> processed ?w1 ''s1''"
    unfolding assistant_tasks(3)[OF sample_parse(3)] c
    by (rule single_block_processed[of "Some ''toolu_1''", simplified]) (simp_all add: truthy_def)
  have t2: "tasksOf (handleMessage sampleEnv ''s1'' ''history m2'' ?w1) ''s1'' = [fixBugTask]"
    unfolding history_one_assistant(1)[OF sample_parse(11) ne] c
    using p1 by (simp add: single_block_skip truthy_def tasksOf_getProcessedSet t1)
  have t3: "tasksOf (handleMessage sampleEnv ''s1'' ''history m2'' (disconnectSession ''s1'' ?w1)) ''s1''
      = [fixBugTask, fixBugTask]"
    unfolding history_one_assistant(1)[OF sample_parse(11) ne] c
    by (simp add: create disconnectSession_views t1)
  from t1 t2 t3 show ?thesis by (intro conjI)
qed

section \<open>Properties of the recovery paths\<close>

lemma getSession_setState:
  "getSession (setState x st l) sid =
     map_option (\<lambda>i. if sessionId i = x then i\<lparr>state := st\<rparr> else i) (getSession l sid)"
  by (induction l) (auto simp: getSession_def setState_def)

lemma archivedOf_setState: "archivedOf (setState x st l) sid = archivedOf l sid"
  by (cases "getSession l sid") (simp_all add: archivedOf_def getSession_setState)

lemma archivedOf_markConnected: "archivedOf (markConnected x l) sid = archivedOf l sid"
  by (simp add: markConnected_def archivedOf_setState)

lemma callRelaunch_simps:
  "launcher (callRelaunch p sid k s) = launcher s"
  "relaunchingSet (callRelaunch p sid k s) = relaunchingSet s"
  "clock (callRelaunch p sid k s) = clock s"
  "timers (callRelaunch p sid k s) = timers s"
  "nextPromise (callRelaunch p sid k s) = nextPromise s + 1"
  "awaiting (callRelaunch p sid k s) = awaiting s @ [(nextPromise s, k)]"
  "relaunchCalls (callRelaunch p sid k s) = relaunchCalls s @ [(clock s, p, sid)]"
  by (simp_all add: callRelaunch_def)

lemma grown_refl: "grown s s"
  by (simp add: grown_def)

lemma grown_trans: "grown a b \<Longrightarrow> grown b c \<Longrightarrow> grown a c"
  unfolding grown_def by (elim conjE exE) (rule conjI, simp, rule conjI, simp, rule_tac x="new @ newa" in exI, auto)

lemma grown_fields:
  assumes "launcher s' = launcher s" "clock s' = clock s" "relaunchCalls s' = relaunchCalls s"
  shows "grown s s'"
  using assms by (simp add: grown_def)

lemma grown_callRelaunch:
  "\<not> archivedOf (launcher s) sid \<Longrightarrow> grown s (callRelaunch p sid k s)"
  by (simp add: grown_def callRelaunch_simps)

lemma grown_watchdogLoop: "grown s (watchdogLoop xs s)"
  by (induction xs) (simp_all add: grown_refl grown_callRelaunch)

lemma grown_onCLIRelaunchNeeded: "grown s (onCLIRelaunchNeeded sid s)"
proof -
  have "grown s (callRelaunch AutoRelaunch sid (AfterAutoRelaunch sid) (s\<lparr>relaunchingSet := insert sid (relaunchingSet s)\<rparr>))"
    if "getSession (launcher s) sid = Some info" "\<not> archived info" for info
  proof -
    have "\<not> archivedOf (launcher (s\<lparr>relaunchingSet := insert sid (relaunchingSet s)\<rparr>)) sid"
      using that by (simp add: archivedOf_def)
    from grown_callRelaunch[OF this] show ?thesis by (simp add: grown_def callRelaunch_simps)
  qed
  then show ?thesis
    by (auto simp: onCLIRelaunchNeeded_def grown_refl split: option.splits)
qed

lemma grown_fire: "grown s (fire tm s)"
  by (cases tm) (simp_all add: fire_def grown_watchdogLoop grown_fields)

lemma grown_foldl_fire: "grown s (foldl (\<lambda>s' t. fire (snd t) s') s ts)"
proof (induction ts arbitrary: s)
  case Nil
  show ?case by (simp add: grown_refl)
next
  case (Cons t ts)
  show ?case using grown_trans[OF grown_fire Cons.IH] by simp
qed

lemma grown_settle: "grown s (settle p ok s)"
proof (cases "map_of (awaiting s) p")
  case None
  then show ?thesis by (simp add: settle_def grown_refl)
next
  case (Some k)
  let ?s1 = "s\<lparr>awaiting := filter (\<lambda>a. fst a \<noteq> p) (awaiting s)\<rparr>"
  have s1: "grown s ?s1" by (simp add: grown_fields)
  show ?thesis
  proof (cases k)
    case (AfterAutoRelaunch sid)
    have "grown s (autoRelaunchFinally sid ?s1)"
      by (simp add: grown_fields autoRelaunchFinally_def)
    with Some AfterAutoRelaunch show ?thesis by (simp add: settle_def)
  next
    case (WatchdogRest rest)
    from grown_trans[OF s1 grown_watchdogLoop[of ?s1 rest]] s1 Some WatchdogRest
    show ?thesis by (simp add: settle_def Let_def)
  qed
qed

lemma grown_stepped: "grown s s' \<Longrightarrow> stepped s s'"
  by (auto simp: grown_def stepped_def)

lemma stepped_advance: "stepped s (advance d s)"
proof -
  let ?s0 = "s\<lparr>clock := clock s + d, timers := filter (\<lambda>t. \<not> fst t \<le> clock s + d) (timers s)\<rparr>"
  have "grown ?s0 (advance d s)"
    unfolding advance_def Let_def by (rule grown_foldl_fire)
  then show ?thesis by (auto simp: grown_def stepped_def)
qed

lemma stepped_step: "stepped s (step e s)"
proof (cases e)
  case (CliOpen x)
  then show ?thesis by (simp add: step_def stepped_def archivedOf_markConnected fun_eq_iff)
next
  case (RelaunchNeeded x)
  then show ?thesis by (simp add: step_def grown_stepped[OF grown_onCLIRelaunchNeeded])
next
  case (Settled p ok)
  then show ?thesis by (simp add: step_def grown_stepped[OF grown_settle])
next
  case (Advance d)
  then show ?thesis by (simp add: step_def stepped_advance)
next
  case (LauncherChanged x st)
  then show ?thesis by (simp add: step_def stepped_def archivedOf_setState fun_eq_iff)
qed

lemma run_archived_calls:
  "archivedOf (launcher (run es s)) = archivedOf (launcher s) \<and>
   (\<exists>new. relaunchCalls (run es s) = relaunchCalls s @ new \<and>
        (\<forall>c \<in> set new. \<not> archivedOf (launcher s) (snd (snd c))))"
proof (induction es arbitrary: s)
  case Nil
  show ?case by simp
next
  case (Cons e es)
  from stepped_step[of s e] obtain n1 where
    a1: "archivedOf (launcher (step e s)) = archivedOf (launcher s)"
    and c1: "relaunchCalls (step e s) = relaunchCalls s @ n1"
    and n1: "\<forall>c \<in> set n1. \<not> archivedOf (launcher s) (snd (snd c))"
    unfolding stepped_def by blast
  from Cons.IH[of "step e s"] obtain n2 where
    a2: "archivedOf (launcher (run es (step e s))) = archivedOf (launcher (step e s))"
    and c2: "relaunchCalls (run es (step e s)) = relaunchCalls (step e s) @ n2"
    and n2: "\<forall>c \<in> set n2. \<not> archivedOf (launcher (step e s)) (snd (snd c))"
    by blast
  have "relaunchCalls (run (e # es) s) = relaunchCalls s @ (n1 @ n2)"
    by (simp add: c1 c2)
  moreover have "\<forall>c \<in> set (n1 @ n2). \<not> archivedOf (launcher s) (snd (snd c))"
    using n1 n2 a1 by auto
  ultimately have "\<exists>new. relaunchCalls (run (e # es) s) = relaunchCalls s @ new \<and>
        (\<forall>c \<in> set new. \<not> archivedOf (launcher s) (snd (snd c)))"
    by blast
  moreover have "archivedOf (launcher (run (e # es) s)) = archivedOf (launcher s)"
    using a1 a2 by simp
  ultimately show ?case by blast
qed

text \<open>
  Claim C6. Take any state of the server in which the launcher's record of a session is
  marked archived, and any sequence of events after it (agents connecting, browsers
  attaching to sessions without an agent, promises settling, time passing and timers
  firing, the launcher changing the state of its records). Neither the auto-relaunch
  callback nor the reconnection watchdog adds a call of \<open>launcher.relaunch\<close> for that
  session; counted from the start of the server, there is no such call at all.
\<close>

theorem archived_never_relaunched:
  assumes "archivedOf (launcher s) sid"
  shows "callsFor AutoRelaunch sid (run es s) = callsFor AutoRelaunch sid s
       \<and> callsFor Watchdog sid (run es s) = callsFor Watchdog sid s
       \<and> (s = boot l \<longrightarrow> (\<forall>c \<in> set (relaunchCalls (run es s)). snd (snd c) \<noteq> sid))"
proof -
  from run_archived_calls[of es s] obtain new where
    c: "relaunchCalls (run es s) = relaunchCalls s @ new"
    and n: "\<forall>c \<in> set new. \<not> archivedOf (launcher s) (snd (snd c))"
    by blast
  from n assms have ne: "\<forall>c \<in> set new. snd (snd c) \<noteq> sid" by auto
  then have f: "filter (\<lambda>c. fst (snd c) = p \<and> snd (snd c) = sid) new = []" for p
    by (auto simp: filter_empty_conv)
  have b: "relaunchCalls s = []" if "s = boot l"
    using that by (simp add: boot_def)
  have "\<forall>c \<in> set (relaunchCalls (run es s)). snd (snd c) \<noteq> sid" if "s = boot l"
    using ne by (simp add: c b[OF that])
  then show ?thesis
    by (simp add: callsFor_def c f)
qed







































lemma isWatchdogRest_simps [simp]:
  "isWatchdogRest (p, WatchdogRest r)" "\<not> isWatchdogRest (p, AfterAutoRelaunch x)"
  by (simp_all add: isWatchdogRest_def)

subsection \<open>The watchdog's loop\<close>




subsection \<open>Firing timers\<close>





subsection \<open>Promise ids\<close>



lemma keys_ok_fields:
  "awaiting s' = awaiting s \<Longrightarrow> nextPromise s' = nextPromise s \<Longrightarrow> keys_ok s' = keys_ok s"
  by (simp add: keys_ok_def)





lemma boot_sample:
  "launcher (boot sampleTable) = sampleTable"
  "relaunchingSet (boot sampleTable) = {}"
  "clock (boot sampleTable) = 0"
  "timers (boot sampleTable) = [(RECONNECT_GRACE_MS, ReconnectWatchdog)]"
  "nextPromise (boot sampleTable) = 0"
  "awaiting (boot sampleTable) = []"
  "relaunchCalls (boot sampleTable) = []"
  by (simp_all add: boot_def sampleTable_def getStartingSessions_def)

text \<open>Session \<open>c3\<close> is archived and starting: a browser attaches, the grace window
  elapses, and the only relaunch is the watchdog's for \<open>b2\<close>.\<close>

theorem archived_never_relaunched_witness:
  "archivedOf (launcher (boot sampleTable)) ''c3''
   \<and> callsFor AutoRelaunch ''c3'' (run [RelaunchNeeded ''c3'', Advance 10000] (boot sampleTable)) = []
   \<and> callsFor Watchdog ''c3'' (run [RelaunchNeeded ''c3'', Advance 10000] (boot sampleTable)) = []
   \<and> relaunchCalls (run [RelaunchNeeded ''c3'', Advance 10000] (boot sampleTable))
        = [(10000, Watchdog, ''b2'')]"
proof -
  have a: "archivedOf (launcher (boot sampleTable)) ''c3''"
    by (simp add: boot_sample archivedOf_def getSession_def) (simp add: sampleTable_def)
  note t = archived_never_relaunched[OF a, of "[RelaunchNeeded ''c3'', Advance 10000]" sampleTable]
  have z: "callsFor p ''c3'' (boot sampleTable) = []" for p
    by (simp add: callsFor_def boot_sample)
  have r: "relaunchCalls (run [RelaunchNeeded ''c3'', Advance 10000] (boot sampleTable))
        = [(10000, Watchdog, ''b2'')]"
    by (simp add: step_def onCLIRelaunchNeeded_def boot_def sampleTable_def getSession_def
          getStartingSessions_def advance_def fire_def archivedOf_def callRelaunch_def
          RECONNECT_GRACE_MS_def)
  from t[THEN conjunct1] t[THEN conjunct2, THEN conjunct1] a r show ?thesis
    by (simp only: z)
qed














subsection \<open>Which sessions the watchdog finds\<close>














lemma boot_eligible:
  "eligible (boot l) = filter (\<lambda>x. \<not> archivedOf l x) (map sessionId (getStartingSessions l))"
  by (simp add: eligible_def staleIds_def boot_def)

subsection \<open>Calls by either path\<close>




























end
